theory Spec2Isabelle
  imports Main "HOL-Library.Sublist"
begin

section \<open>JavaScript strings\<close>

text \<open>
  Texts are modelled as \<^typ>\<open>string\<close>: the code units of the JavaScript string, read as
  8-bit units (UTF-8 for the few symbols beyond ASCII that the source names). The model is
  exact for ASCII text, which is what the composer's own markup and every keyword of the
  source consist of: \<open>toLowerCase\<close>/\<open>toUpperCase\<close> map the 26 ASCII letters and
  leave every other unit alone, \<open>\s\<close> and \<open>trim\<close> know the six ASCII white-space
  characters, \<open>\d\<close> is \<open>[0-9]\<close>, \<open>\w\<close> is \<open>[A-Za-z0-9_]\<close>.
\<close>

definition upperLetters :: string where
  "upperLetters = ''ABCDEFGHIJKLMNOPQRSTUVWXYZ''"

definition lowerLetters :: string where
  "lowerLetters = ''abcdefghijklmnopqrstuvwxyz''"

definition toLowerChar :: "char \<Rightarrow> char" where
  "toLowerChar c = (case map_of (zip upperLetters lowerLetters) c of None \<Rightarrow> c | Some l \<Rightarrow> l)"

definition toUpperChar :: "char \<Rightarrow> char" where
  "toUpperChar c = (case map_of (zip lowerLetters upperLetters) c of None \<Rightarrow> c | Some u \<Rightarrow> u)"

definition toLowerCase :: "string \<Rightarrow> string" where
  "toLowerCase s = map toLowerChar s"

definition toUpperCase :: "string \<Rightarrow> string" where
  "toUpperCase s = map toUpperChar s"

definition isSpace :: "char \<Rightarrow> bool" where
  "isSpace c = (c \<in> set [CHR '' '', CHR 0x09, CHR 0x0A, CHR 0x0B, CHR 0x0C, CHR 0x0D])"

definition trim :: "string \<Rightarrow> string" where
  "trim s = rev (dropWhile isSpace (rev (dropWhile isSpace s)))"

definition isDigit :: "char \<Rightarrow> bool" where
  "isDigit c = (c \<in> set ''0123456789'')"

definition isWordChar :: "char \<Rightarrow> bool" where
  "isWordChar c = (c \<in> set upperLetters \<or> c \<in> set lowerLetters \<or> isDigit c \<or> c = CHR ''_'')"

text \<open>\<open>text.startsWith(pat)\<close> and \<open>text.includes(pat)\<close>; the text comes first.\<close>

fun startsWith :: "string \<Rightarrow> string \<Rightarrow> bool" where
  "startsWith t [] = True"
| "startsWith [] (p # ps) = False"
| "startsWith (c # cs) (p # ps) = (c = p \<and> startsWith cs ps)"

fun includes_str :: "string \<Rightarrow> string \<Rightarrow> bool" where
  "includes_str [] p = startsWith [] p"
| "includes_str (c # cs) p = (startsWith (c # cs) p \<or> includes_str cs p)"

text \<open>\<open>keywords.some(keyword => text.includes(keyword))\<close>.\<close>

definition includesSome :: "string \<Rightarrow> string list \<Rightarrow> bool" where
  "includesSome t keywords = list_ex (includes_str t) keywords"

text \<open>\<open>parseInt\<close> of a run of decimal digits, and the decimal rendering of template literals.\<close>

definition digitVal :: "char \<Rightarrow> nat" where
  "digitVal c = of_char c - 48"

definition parseDigits :: "string \<Rightarrow> nat" where
  "parseDigits ds = foldl (\<lambda>n c. 10 * n + digitVal c) 0 ds"

fun showNat :: "nat \<Rightarrow> string" where
  "showNat n = (if n < 10 then [''0123456789'' ! n]
                else showNat (n div 10) @ [''0123456789'' ! (n mod 10)])"

declare showNat.simps [simp del]

definition showInt :: "int \<Rightarrow> string" where
  "showInt i = (if i < 0 then ''-'' @ showNat (nat (- i)) else showNat (nat i))"

subsection \<open>The regular expressions of the source\<close>

text \<open>
  \<open>regex.test(text)\<close> asks whether the pattern matches at some position. \<open>scanPositions m\<close>
  tries the anchored matcher \<open>m\<close> at every position, left to right, handing it the code
  unit before the position (for \<open>\b\<close>) and the rest of the text.
\<close>

fun scanPositions :: "(char option \<Rightarrow> string \<Rightarrow> bool) \<Rightarrow> char option \<Rightarrow> string \<Rightarrow> bool" where
  "scanPositions m prev [] = m prev []"
| "scanPositions m prev (c # cs) = (m prev (c # cs) \<or> scanPositions m (Some c) cs)"

definition nextChar :: "string \<Rightarrow> char option" where
  "nextChar s = (case s of [] \<Rightarrow> None | c # cs \<Rightarrow> Some c)"

definition isWordAt :: "char option \<Rightarrow> bool" where
  "isWordAt c = (case c of None \<Rightarrow> False | Some x \<Rightarrow> isWordChar x)"

text \<open>\<open>\b\<close>: exactly one of the two neighbours is a word character.\<close>

definition wordBoundary :: "char option \<Rightarrow> char option \<Rightarrow> bool" where
  "wordBoundary before after = (isWordAt before \<noteq> isWordAt after)"

text \<open>A literal, optionally between \<open>\b\<close> anchors: \<open>/\blit\b/\<close>, \<open>/lit\b/\<close>, \<open>/lit/\<close>.\<close>

definition literalAt :: "bool \<Rightarrow> string \<Rightarrow> bool \<Rightarrow> char option \<Rightarrow> string \<Rightarrow> bool" where
  "literalAt leftB lit rightB prev s =
     ((if leftB then wordBoundary prev (nextChar s) else True) \<and>
      startsWith s lit \<and>
      (if rightB then wordBoundary (Some (last lit)) (nextChar (drop (length lit) s)) else True))"

definition testLiteral :: "bool \<Rightarrow> string \<Rightarrow> bool \<Rightarrow> string \<Rightarrow> bool" where
  "testLiteral leftB lit rightB t = scanPositions (literalAt leftB lit rightB) None t"

text \<open>
  \<open>/\b\d+\/\d+\b/\<close>: both digit runs are greedy and cannot give digits back (what follows
  a shorter run would be a digit, neither \<open>/\<close> nor a boundary).
\<close>

definition fractionAt :: "char option \<Rightarrow> string \<Rightarrow> bool" where
  "fractionAt prev s =
     (wordBoundary prev (nextChar s) \<and> takeWhile isDigit s \<noteq> [] \<and>
      (case dropWhile isDigit s of
         [] \<Rightarrow> False
       | c # r \<Rightarrow> c = CHR ''/'' \<and> takeWhile isDigit r \<noteq> [] \<and>
                  wordBoundary (Some (last (takeWhile isDigit r))) (nextChar (dropWhile isDigit r))))"

definition testFraction :: "string \<Rightarrow> bool" where
  "testFraction t = scanPositions fractionAt None t"

text \<open>
  \<open>.\<close> matches any unit but a line terminator, so \<open>.*\<close> stays on the line:
  \<open>lineRest\<close> is what \<open>.*\<close> can reach. \<open>inOrder ks s\<close>: the literals \<open>ks\<close> occur in
  \<open>s\<close> in this order without overlapping; \<open>/k0.*k1.*k2/\<close> is \<open>k0\<close> at the position and
  the others in order within the rest of the line.
\<close>

definition isLineTerminator :: "char \<Rightarrow> bool" where
  "isLineTerminator c = (c = CHR 0x0A \<or> c = CHR 0x0D)"

definition lineRest :: "string \<Rightarrow> string" where
  "lineRest s = takeWhile (\<lambda>c. \<not> isLineTerminator c) s"

fun inOrder :: "string list \<Rightarrow> string \<Rightarrow> bool" where
  "inOrder [] s = True"
| "inOrder (k # ks) [] = (startsWith [] k \<and> inOrder ks [])"
| "inOrder (k # ks) (c # cs) =
     ((startsWith (c # cs) k \<and> inOrder ks (drop (length k) (c # cs))) \<or> inOrder (k # ks) cs)"

definition dotStarAt :: "string \<Rightarrow> string list \<Rightarrow> char option \<Rightarrow> string \<Rightarrow> bool" where
  "dotStarAt k0 ks prev s = (startsWith s k0 \<and> inOrder ks (lineRest (drop (length k0) s)))"

definition testDotStar :: "string \<Rightarrow> string list \<Rightarrow> string \<Rightarrow> bool" where
  "testDotStar k0 ks t = scanPositions (dotStarAt k0 ks) None t"

text \<open>
  \<open>text.match(/<delay time="(\d+)s"/g)\<close> followed by \<open>parseInt\<close> of the digits of each
  match: the seconds of every delay marker, in text order. A match begins with \<open><\<close> and
  holds no other, so matches never overlap and every position can be tried.
\<close>

definition digitsThenAt :: "string \<Rightarrow> string \<Rightarrow> string \<Rightarrow> nat option" where
  "digitsThenAt opening closing s =
     (if startsWith s opening \<and>
         takeWhile isDigit (drop (length opening) s) \<noteq> [] \<and>
         startsWith (dropWhile isDigit (drop (length opening) s)) closing
      then Some (parseDigits (takeWhile isDigit (drop (length opening) s)))
      else None)"

fun allDigitsThen :: "string \<Rightarrow> string \<Rightarrow> string \<Rightarrow> nat list" where
  "allDigitsThen opening closing [] = []"
| "allDigitsThen opening closing (c # cs) =
     (case digitsThenAt opening closing (c # cs) of
        None \<Rightarrow> allDigitsThen opening closing cs
      | Some n \<Rightarrow> n # allDigitsThen opening closing cs)"

fun firstDigitsThen :: "string \<Rightarrow> string \<Rightarrow> string \<Rightarrow> nat option" where
  "firstDigitsThen opening closing [] = None"
| "firstDigitsThen opening closing (c # cs) =
     (case digitsThenAt opening closing (c # cs) of
        None \<Rightarrow> firstDigitsThen opening closing cs
      | Some n \<Rightarrow> Some n)"

definition delaySeconds :: "string \<Rightarrow> nat list" where
  \<open>delaySeconds t = allDigitsThen ''<delay time="'' ''s"'' t\<close>

definition durationMatch :: "string \<Rightarrow> nat option" where
  \<open>durationMatch t = firstDigitsThen ''duration="'' ''s"'' t\<close>


section \<open>SignalAnalyzer: \<open>analyzeStructuredText\<close> of the nudge system\<close>

datatype urgency = Low | Medium | High

record patterns =
  hasErrors :: bool
  hasConfusion :: bool
  hasRepetition :: bool
  hasLongDelays :: bool
  hasContextSwitching :: bool
  hasFrequentErrors :: bool
  hasProlongedFocus :: bool
  hasMathematicalContent :: bool
  hasPotentialIncorrectAnswer :: bool
  hasCompletionSignals :: bool
  hasSuccessIndicators :: bool

record analysis =
  concerningSignals :: nat
  signalTypes :: "string list"
  urgency :: urgency
  patterns :: patterns

record mathPatterns =
  hasMathContent :: bool
  hasIncorrectAnswer :: bool
  mathType :: "string option"

definition initialAnalysis :: analysis where
  "initialAnalysis =
     \<lparr>concerningSignals = 0, signalTypes = [], urgency = Low,
      patterns = \<lparr>hasErrors = False, hasConfusion = False, hasRepetition = False,
                  hasLongDelays = False, hasContextSwitching = False,
                  hasFrequentErrors = False, hasProlongedFocus = False,
                  hasMathematicalContent = False, hasPotentialIncorrectAnswer = False,
                  hasCompletionSignals = False, hasSuccessIndicators = False\<rparr>\<rparr>"

text \<open>One scoring rule: add to the score, push the signal type, set flags.\<close>

definition addSignal :: "nat \<Rightarrow> string \<Rightarrow> (patterns \<Rightarrow> patterns) \<Rightarrow> analysis \<Rightarrow> analysis" where
  "addSignal weight name flag a =
     a\<lparr>concerningSignals := concerningSignals a + weight,
       signalTypes := signalTypes a @ [name],
       patterns := flag (patterns a)\<rparr>"

subsection \<open>\<open>detectMathematicalContent\<close>\<close>

definition mathKeywords :: "string list" where
  "mathKeywords =
     [''probability'', ''calculate'', ''dice'', ''roll'', ''fraction'', ''answer is'',
      ''equation'', ''formula'', ''solve'', ''result'', ''solution'', ''theorem'',
      ''proof'', ''derivative'', ''integral'', ''matrix'', ''vector'', ''function'']"

text \<open>
  The character class \<open>[=+\-*/()^...]\<close>; its last four members are the square-root,
  integral, summation and product signs, three UTF-8 units each.
\<close>

definition mathSymbolChars :: string where
  "mathSymbolChars = ''=+-*/()^''"

definition mathSymbolsBeyondAscii :: "string list" where
  "mathSymbolsBeyondAscii =
     [[CHR 0xE2, CHR 0x88, CHR 0x9A], [CHR 0xE2, CHR 0x88, CHR 0xAB],
      [CHR 0xE2, CHR 0x88, CHR 0x91], [CHR 0xE2, CHR 0x88, CHR 0x8F]]"

definition hasMathSymbols :: "string \<Rightarrow> bool" where
  "hasMathSymbols t =
     (list_ex (\<lambda>c. c \<in> set mathSymbolChars) t \<or> includesSome t mathSymbolsBeyondAscii)"

definition suspiciousFractions :: "string list" where
  "suspiciousFractions = [''1/89'', ''1/90'', ''1/88'', ''2/89'']"

text \<open>The five \<open>errorPatterns\<close>; the \<open>/i\<close> ones are tested on the lower-cased text.\<close>

definition errorPatterns :: "string \<Rightarrow> bool" where
  "errorPatterns t =
     (testLiteral False ''answer is 0'' True (toLowerCase t) \<or>
      testLiteral False ''answer is 1'' True (toLowerCase t) \<or>
      testLiteral True ''1/89'' True t \<or>
      testLiteral False ''divide by 0'' False (toLowerCase t) \<or>
      testLiteral False ''infinity'' False (toLowerCase t))"

definition isDiceProblem :: "string \<Rightarrow> bool" where
  "isDiceProblem t =
     (includes_str (toLowerCase t) ''dice'' \<or> includes_str (toLowerCase t) ''roll'')"

definition detectMathematicalContent :: "string \<Rightarrow> mathPatterns" where
  "detectMathematicalContent t =
     (if includesSome (toLowerCase t) mathKeywords \<or> testFraction t \<or> hasMathSymbols t
      then \<lparr>hasMathContent = True,
            hasIncorrectAnswer =
              ((isDiceProblem t \<and> includesSome t suspiciousFractions) \<or> errorPatterns t),
            mathType = (if isDiceProblem t then Some ''probability'' else None)\<rparr>
      else \<lparr>hasMathContent = False, hasIncorrectAnswer = False, mathType = None\<rparr>)"

subsection \<open>The scoring rules, in the order of the source\<close>

definition checkErrorSignal :: "string \<Rightarrow> analysis \<Rightarrow> analysis" where
  "checkErrorSignal t a =
     (if includes_str t ''<error_signal>''
      then addSignal 1 ''errors'' (\<lambda>p. p\<lparr>hasErrors := True\<rparr>) a else a)"

definition checkConfusionSignal :: "string \<Rightarrow> analysis \<Rightarrow> analysis" where
  "checkConfusionSignal t a =
     (if includes_str t ''<confusion_signal>''
      then addSignal 2 ''confusion'' (\<lambda>p. p\<lparr>hasConfusion := True\<rparr>) a else a)"

definition checkRepetitive :: "string \<Rightarrow> analysis \<Rightarrow> analysis" where
  "checkRepetitive t a =
     (if includes_str t ''<repetitive>''
      then addSignal 1 ''repetition'' (\<lambda>p. p\<lparr>hasRepetition := True\<rparr>) a else a)"

definition longDelays :: "string \<Rightarrow> nat list" where
  "longDelays t = filter (\<lambda>seconds. seconds > 30) (delaySeconds t)"

definition checkLongDelays :: "string \<Rightarrow> analysis \<Rightarrow> analysis" where
  "checkLongDelays t a =
     (if length (longDelays t) > 0
      then addSignal 1 ''long_delays'' (\<lambda>p. p\<lparr>hasLongDelays := True\<rparr>) a else a)"

definition checkContextSwitching :: "string \<Rightarrow> analysis \<Rightarrow> analysis" where
  \<open>checkContextSwitching t a =
     (if includes_str t ''type="context_switching"''
      then addSignal 1 ''context_switching'' (\<lambda>p. p\<lparr>hasContextSwitching := True\<rparr>) a else a)\<close>

definition checkFrequentErrors :: "string \<Rightarrow> analysis \<Rightarrow> analysis" where
  \<open>checkFrequentErrors t a =
     (if includes_str t ''type="frequent_errors"''
      then addSignal 2 ''frequent_errors'' (\<lambda>p. p\<lparr>hasFrequentErrors := True\<rparr>) a else a)\<close>

definition longFocus :: "string \<Rightarrow> bool" where
  "longFocus t = (case durationMatch t of None \<Rightarrow> False | Some seconds \<Rightarrow> seconds > 300)"

definition checkProlongedFocus :: "string \<Rightarrow> analysis \<Rightarrow> analysis" where
  \<open>checkProlongedFocus t a =
     (if includes_str t ''type="prolonged_focus"'' \<and> longFocus t
      then addSignal 1 ''prolonged_focus'' (\<lambda>p. p\<lparr>hasProlongedFocus := True\<rparr>) a else a)\<close>

definition checkMathematicalContent :: "string \<Rightarrow> analysis \<Rightarrow> analysis" where
  "checkMathematicalContent t a =
     (if hasMathContent (detectMathematicalContent t)
      then (if hasIncorrectAnswer (detectMathematicalContent t)
            then addSignal 2 ''incorrect_math''
                   (\<lambda>p. p\<lparr>hasMathematicalContent := True, hasPotentialIncorrectAnswer := True\<rparr>) a
            else a\<lparr>patterns := (patterns a)\<lparr>hasMathematicalContent := True\<rparr>\<rparr>)
      else a)"

definition checkIncorrectAnswerSignal :: "string \<Rightarrow> analysis \<Rightarrow> analysis" where
  "checkIncorrectAnswerSignal t a =
     (if includes_str t ''<incorrect_answer_signal>''
      then addSignal 3 ''incorrect_answer'' (\<lambda>p. p\<lparr>hasPotentialIncorrectAnswer := True\<rparr>) a
      else a)"

definition completionKeywords :: "string list" where
  "completionKeywords =
     [''done'', ''finished'', ''complete'', ''solved'', ''got it'', ''understand now'',
      ''that works'', ''perfect'', ''success'', ''correct'', ''right answer'', ''final answer'',
      ''solution is'', ''answer is'', ''result is'', ''equals'', ''='']"

definition checkCompletion :: "string \<Rightarrow> analysis \<Rightarrow> analysis" where
  "checkCompletion t a =
     (if includesSome (toLowerCase t) completionKeywords
      then a\<lparr>signalTypes := signalTypes a @ [''completion''],
             patterns := (patterns a)\<lparr>hasCompletionSignals := True\<rparr>\<rparr>
      else a)"

text \<open>The seven \<open>mathCompletionPatterns\<close>, tested on the lower-cased text.\<close>

definition mathCompletionPatterns :: "string \<Rightarrow> bool" where
  "mathCompletionPatterns l =
     (testLiteral True ''15/36'' True l \<or>
      testLiteral True ''5/12'' True l \<or>
      testDotStar ''answer'' [''15''] l \<or>
      testDotStar ''answer'' [''36''] l \<or>
      testDotStar ''15'' [''out'', ''36''] l \<or>
      testDotStar ''probability'' [''15''] l \<or>
      testDotStar ''probability'' [''5/12''] l)"

definition checkCorrectAnswer :: "string \<Rightarrow> analysis \<Rightarrow> analysis" where
  "checkCorrectAnswer t a =
     (if hasMathematicalContent (patterns a) \<and> mathCompletionPatterns (toLowerCase t)
      then a\<lparr>signalTypes := signalTypes a @ [''correct_answer''],
             patterns := (patterns a)\<lparr>hasSuccessIndicators := True\<rparr>\<rparr>
      else a)"

definition determineUrgency :: "analysis \<Rightarrow> analysis" where
  "determineUrgency a =
     (if concerningSignals a \<ge> 6 then a\<lparr>urgency := High\<rparr>
      else if concerningSignals a \<ge> 3 then a\<lparr>urgency := Medium\<rparr>
      else a)"

definition analyzeStructuredText :: "string \<Rightarrow> analysis" where
  "analyzeStructuredText t =
     determineUrgency (checkCorrectAnswer t (checkCompletion t
       (checkIncorrectAnswerSignal t (checkMathematicalContent t
         (checkProlongedFocus t (checkFrequentErrors t (checkContextSwitching t
           (checkLongDelays t (checkRepetitive t (checkConfusionSignal t
             (checkErrorSignal t initialAnalysis)))))))))))"


section \<open>EscalationEngine and NudgeDispatcher: the nudge system\<close>

text \<open>
  A sealed batch, as \<open>processBatch\<close> builds it and the nudge system reads it. The
  clock is read once per operation: \<open>now\<close> stands for \<open>Date.now()\<close>, in milliseconds.
\<close>

record batch =
  batchId :: string
  batchTimestamp :: int
  structuredText :: string
  rawEntryCount :: nat
  timespan :: int

record nudge =
  nudgeId :: string
  nudgeTimestamp :: int
  nudgeLevel :: int
  nudgeText :: string
  nudgeAnalysis :: analysis
  nudgeBatchId :: string
  forced :: bool
  manualTrigger :: bool

record nudgeSystem =
  nudgeHistory :: "nudge list"
  interferenceLevel :: int
  lastNudgeTime :: int

text \<open>The constructor, which is also what \<open>reset\<close> restores.\<close>

definition newNudgeSystem :: nudgeSystem where
  "newNudgeSystem = \<lparr>nudgeHistory = [], interferenceLevel = 0, lastNudgeTime = 0\<rparr>"

definition nudgeCooldowns :: "int \<rightharpoonup> int" where
  "nudgeCooldowns = map_of [(0, 10000), (1, 15000), (2, 20000), (3, 30000)]"

definition toLevel1 :: nat where "toLevel1 = 2"

definition toLevel2 :: nat where "toLevel2 = 4"

definition toLevel3 :: nat where "toLevel3 = 6"

subsection \<open>\<open>updateInterferenceLevel\<close> and \<open>shouldNudge\<close>\<close>

definition escalate :: "analysis \<Rightarrow> nudgeSystem \<Rightarrow> nudgeSystem" where
  "escalate a s =
     (if concerningSignals a \<ge> toLevel3 then s\<lparr>interferenceLevel := max (interferenceLevel s) 3\<rparr>
      else if concerningSignals a \<ge> toLevel2 then s\<lparr>interferenceLevel := max (interferenceLevel s) 2\<rparr>
      else if concerningSignals a \<ge> toLevel1 then s\<lparr>interferenceLevel := max (interferenceLevel s) 1\<rparr>
      else s)"

definition decay :: "int \<Rightarrow> analysis \<Rightarrow> nudgeSystem \<Rightarrow> nudgeSystem" where
  "decay now a s =
     (if now - lastNudgeTime s > 300000 \<and> concerningSignals a < 2
      then s\<lparr>interferenceLevel := max 0 (interferenceLevel s - 1)\<rparr>
      else s)"

definition updateInterferenceLevel :: "int \<Rightarrow> analysis \<Rightarrow> nudgeSystem \<Rightarrow> nudgeSystem" where
  "updateInterferenceLevel now a s =
     (if hasSuccessIndicators (patterns a) \<and> concerningSignals a = 0
      then s\<lparr>interferenceLevel := max 0 (interferenceLevel s - 1)\<rparr>
      else decay now a (escalate a s))"

text \<open>The local variable \<open>cooldown\<close> of \<open>shouldNudge\<close>.\<close>

definition tableCooldown :: "nudgeSystem \<Rightarrow> int" where
  "tableCooldown s =
     (case nudgeCooldowns (interferenceLevel s) of None \<Rightarrow> 30000 | Some c \<Rightarrow> c)"

definition cooldown :: "analysis \<Rightarrow> nudgeSystem \<Rightarrow> int" where
  "cooldown a s =
     (let hasSuccess = hasSuccessIndicators (patterns a);
          hasProblems = concerningSignals a > 0;
          hasMathContent = hasMathematicalContent (patterns a);
          c = (if hasSuccess \<and> \<not> hasProblems then 5000 else tableCooldown s)
      in if hasMathContent \<and> hasProblems then min c 8000 else c)"

definition shouldNudge :: "int \<Rightarrow> analysis \<Rightarrow> nudgeSystem \<Rightarrow> bool" where
  "shouldNudge now a s =
     ((concerningSignals a > 0 \<or> hasSuccessIndicators (patterns a)) \<and>
      now - lastNudgeTime s > cooldown a s)"

subsection \<open>\<open>callPrisma\<close>: post-processing of the model's reply\<close>

text \<open>
  The language model is the external collaborator: what comes back from the HTTP call is
  an input of the model. \<open>HttpFailure\<close> covers a failed request or a non-OK status,
  \<open>NoContent\<close> a body without \<open>content[0].text\<close>.
\<close>

datatype apiReply = HttpFailure | NoContent | ContentText string

datatype prismaError = ApiError | InvalidResponseFormat

definition genericPhrases :: "string list" where
  "genericPhrases =
     [''It'' @ [CHR 0x27] @ ''s great that you'' @ [CHR 0x27] @ ''re practicing'',
      ''Keep up the consistent effort'',
      ''don'' @ [CHR 0x27] @ ''t hesitate to reach out'',
      ''That'' @ [CHR 0x27] @ ''s a key part of the learning process'',
      ''You'' @ [CHR 0x27] @ ''re doing well'',
      ''Great job'',
      ''Keep going'',
      ''You'' @ [CHR 0x27] @ ''ve got this'']"

definition isGeneric :: "string \<Rightarrow> bool" where
  "isGeneric responseText =
     list_ex (\<lambda>phrase. includes_str (toLowerCase responseText) (toLowerCase phrase)) genericPhrases"

definition genericFallback :: "nudgeSystem \<Rightarrow> string" where
  "genericFallback s =
     (if interferenceLevel s \<ge> 3
      then ''Check the error message carefully - it usually tells you exactly what''
             @ [CHR 0x27] @ ''s wrong.''
      else if interferenceLevel s \<ge> 2 then ''Try breaking the problem into smaller steps.''
      else ''Take a step back and review what you'' @ [CHR 0x27] @ ''re trying to accomplish.'')"

text \<open>\<open>Inl\<close> is a thrown error, \<open>Inr None\<close> the \<open>null\<close> returned for SILENT.\<close>

definition callPrisma :: "nudgeSystem \<Rightarrow> apiReply \<Rightarrow> prismaError + string option" where
  "callPrisma s reply =
     (case reply of
        HttpFailure \<Rightarrow> Inl ApiError
      | NoContent \<Rightarrow> Inl InvalidResponseFormat
      | ContentText raw \<Rightarrow>
          if raw = [] then Inl InvalidResponseFormat
          else if toUpperCase (trim raw) = ''SILENT'' then Inr None
          else if isGeneric (trim raw) then Inr (Some (genericFallback s))
          else Inr (Some (trim raw)))"

subsection \<open>\<open>generateNudge\<close> and \<open>analyzeAndNudge\<close>\<close>

text \<open>\<open>push\<close>, then \<open>slice(-20)\<close> when the history has grown beyond twenty.\<close>

definition pushNudge :: "nudge \<Rightarrow> nudge list \<Rightarrow> nudge list" where
  "pushNudge n history =
     (if length (history @ [n]) > 20
      then drop (length (history @ [n]) - 20) (history @ [n])
      else history @ [n])"

definition emptyResponseFallback :: string where
  "emptyResponseFallback =
     ''Take a closer look at your reasoning and try to identify any assumptions you may have missed.''"

definition emitNudge :: "int \<Rightarrow> nudgeSystem \<Rightarrow> batch \<Rightarrow> analysis \<Rightarrow> string \<Rightarrow> nudge" where
  "emitNudge now s b a cleanedText =
     \<lparr>nudgeId = ''nudge_'' @ showInt now, nudgeTimestamp = now,
      nudgeLevel = interferenceLevel s, nudgeText = cleanedText, nudgeAnalysis = a,
      nudgeBatchId = batchId b, forced = False, manualTrigger = False\<rparr>"

definition recordNudge :: "int \<Rightarrow> nudge \<Rightarrow> nudgeSystem \<Rightarrow> nudgeSystem \<times> nudge option" where
  "recordNudge now n s =
     (s\<lparr>nudgeHistory := pushNudge n (nudgeHistory s), lastNudgeTime := now\<rparr>, Some n)"

definition generateNudge ::
  "int \<Rightarrow> nudgeSystem \<Rightarrow> batch \<Rightarrow> analysis \<Rightarrow> apiReply \<Rightarrow> nudgeSystem \<times> nudge option" where
  "generateNudge now s b a reply =
     (case callPrisma s reply of
        Inl err \<Rightarrow> (s, None)
      | Inr returned \<Rightarrow>
          (let cleanedText = trim (case returned of None \<Rightarrow> [] | Some t \<Rightarrow> t)
           in if cleanedText = []
              then (if concerningSignals a > 0
                    then recordNudge now (emitNudge now s b a emptyResponseFallback) s
                    else (s, None))
              else recordNudge now (emitNudge now s b a cleanedText) s))"

text \<open>A missing batch is \<open>None\<close>, a missing API key the empty string (both falsy).\<close>

definition analyzeAndNudge ::
  "int \<Rightarrow> nudgeSystem \<Rightarrow> batch option \<Rightarrow> string \<Rightarrow> apiReply \<Rightarrow> nudgeSystem \<times> nudge option" where
  "analyzeAndNudge now s structuredBatch apiKey reply =
     (case structuredBatch of
        None \<Rightarrow> (s, None)
      | Some b \<Rightarrow>
          if apiKey = [] then (s, None)
          else (let a = analyzeStructuredText (structuredText b);
                    s1 = updateInterferenceLevel now a s
                in if shouldNudge now a s1 then generateNudge now s1 b a reply
                   else (s1, None)))"

subsection \<open>The manual trigger: \<open>forceAnalyzeAndNudge\<close>\<close>

definition forcedDefaultText :: string where
  "forcedDefaultText =
     ''Keep doing what you'' @ [CHR 0x27] @ ''re doing - you'' @ [CHR 0x27]
       @ ''re on the right track!''"

definition generateForcedNudge ::
  "int \<Rightarrow> nudgeSystem \<Rightarrow> batch \<Rightarrow> analysis \<Rightarrow> apiReply \<Rightarrow> nudgeSystem \<times> nudge option" where
  "generateForcedNudge now s b a reply =
     (case callPrisma s reply of
        Inl err \<Rightarrow> (s, None)
      | Inr returned \<Rightarrow>
          (let finalText = (case returned of
                              None \<Rightarrow> forcedDefaultText
                            | Some t \<Rightarrow> if t = [] then forcedDefaultText else t)
           in recordNudge now
                \<lparr>nudgeId = ''forced_nudge_'' @ showInt now, nudgeTimestamp = now,
                 nudgeLevel = interferenceLevel s, nudgeText = finalText, nudgeAnalysis = a,
                 nudgeBatchId = batchId b, forced = True, manualTrigger = False\<rparr> s))"

text \<open>
  \<open>nudge.manualTrigger = true\<close> is set on the object that was pushed, so the last
  entry of the history carries the flag too.
\<close>

definition markManual :: "nudgeSystem \<times> nudge option \<Rightarrow> nudgeSystem \<times> nudge option" where
  "markManual r =
     (case snd r of
        None \<Rightarrow> r
      | Some n \<Rightarrow>
          ((fst r)\<lparr>nudgeHistory :=
                     butlast (nudgeHistory (fst r)) @ [n\<lparr>manualTrigger := True\<rparr>]\<rparr>,
           Some (n\<lparr>manualTrigger := True\<rparr>)))"

definition forceAnalyzeAndNudge ::
  "int \<Rightarrow> nudgeSystem \<Rightarrow> batch option \<Rightarrow> string \<Rightarrow> apiReply \<Rightarrow> nudgeSystem \<times> nudge option" where
  "forceAnalyzeAndNudge now s structuredBatch apiKey reply =
     (case structuredBatch of
        None \<Rightarrow> (s, None)
      | Some b \<Rightarrow>
          if apiKey = [] then (s, None)
          else (let a = analyzeStructuredText (structuredText b);
                    originalLastNudgeTime = lastNudgeTime s;
                    s1 = s\<lparr>lastNudgeTime := 0\<rparr>;
                    s2 = (if interferenceLevel s1 = 0 then s1\<lparr>interferenceLevel := 1\<rparr> else s1);
                    r = generateForcedNudge now s2 b a reply
                in markManual ((fst r)\<lparr>lastNudgeTime := originalLastNudgeTime\<rparr>, snd r)))"

subsection \<open>Sequences of operations\<close>

text \<open>
  One operation of the session: an automatic analysis or a manual trigger, with the clock
  reading, the batch, the API key and the model's reply it meets.
\<close>

datatype operation =
  Automatic int "batch option" string apiReply
| Manual int "batch option" string apiReply

fun perform :: "nudgeSystem \<Rightarrow> operation \<Rightarrow> nudgeSystem" where
  "perform s (Automatic now b apiKey reply) = fst (analyzeAndNudge now s b apiKey reply)"
| "perform s (Manual now b apiKey reply) = fst (forceAnalyzeAndNudge now s b apiKey reply)"

definition session :: "operation list \<Rightarrow> nudgeSystem" where
  "session ops = foldl perform newNudgeSystem ops"


section \<open>ActivityBuffer, BatchScheduler and BatchComposer: the tandem processor\<close>

text \<open>
  A capture entry as the content script sends it (\<open>timestamp\<close> is its zero-padded
  sequence number), with the receipt time \<open>addCaptureData\<close> adds. A missing \<open>diff\<close>,
  \<open>fullText\<close> or \<open>url\<close> is the empty string: the source only ever tests them for
  truthiness. \<open>capturedAt\<close> holds \<open>new Date(entry.capturedAt).getTime()\<close>.
\<close>

record captureEntry =
  entryTimestamp :: string
  diff :: string
  fullText :: string
  url :: string
  capturedAt :: int
  receivedAt :: int

record tandemProcessor =
  rawCaptureData :: "captureEntry list"
  structuredBatches :: "batch list"
  lastProcessTime :: int
  lastActivityTime :: int
  isProcessing :: bool

definition newTandemProcessor :: tandemProcessor where
  "newTandemProcessor =
     \<lparr>rawCaptureData = [], structuredBatches = [], lastProcessTime = 0,
      lastActivityTime = 0, isProcessing = False\<rparr>"

definition minWaitTime :: int where "minWaitTime = 15000"

definition maxWaitTime :: int where "maxWaitTime = 45000"

definition thoughtCompleteThreshold :: int where "thoughtCompleteThreshold = 10000"

subsection \<open>\<open>addCaptureData\<close>\<close>

definition addCaptureData :: "int \<Rightarrow> captureEntry \<Rightarrow> tandemProcessor \<Rightarrow> tandemProcessor" where
  "addCaptureData now e p =
     p\<lparr>rawCaptureData :=
         filter (\<lambda>entry. receivedAt entry > now - 2 * 60 * 1000)
           (rawCaptureData p @ [e\<lparr>receivedAt := now\<rparr>]),
       lastActivityTime := now\<rparr>"

subsection \<open>\<open>shouldProcessBatch\<close>\<close>

text \<open>\<open>xs.slice(-n)\<close>: the last \<open>n\<close> elements, all of them when there are fewer.\<close>

definition sliceLast :: "nat \<Rightarrow> 'a list \<Rightarrow> 'a list" where
  "sliceLast n xs = drop (length xs - n) xs"

definition completionIndicators :: "string list" where
  "completionIndicators =
     [''done'', ''finished'', ''complete'', ''solved'', ''got it'', ''understand now'',
      ''that works'', ''perfect'', ''success'', ''correct'']"

definition detectNaturalBreak :: "tandemProcessor \<Rightarrow> bool" where
  "detectNaturalBreak p =
     (if length (rawCaptureData p) < 3 then False
      else (let recentEntries = sliceLast 5 (rawCaptureData p);
                lastEntry = last recentEntries
            in if diff lastEntry \<noteq> [] \<and>
                  includesSome (toLowerCase (diff lastEntry)) completionIndicators
               then True
               else length (remdups (filter (\<lambda>u. u \<noteq> []) (map url recentEntries))) > 1))"

definition urgentKeywords :: "string list" where
  "urgentKeywords =
     [''error'', ''stuck'', ''help'', ''confused'', ''problem'', ''issue'',
      ''broken'', ''not working'', ''failed'', ''wrong'']"

definition hasUrgentSignals :: "tandemProcessor \<Rightarrow> bool" where
  "hasUrgentSignals p =
     (length (filter (\<lambda>entry. diff entry \<noteq> [] \<and>
                               includesSome (toLowerCase (diff entry)) urgentKeywords)
                (sliceLast 3 (rawCaptureData p))) \<ge> 2)"

text \<open>The reason of the decision when the batch should be processed, \<open>None\<close> for \<open>false\<close>.\<close>

definition shouldProcessBatch :: "int \<Rightarrow> tandemProcessor \<Rightarrow> string option" where
  "shouldProcessBatch now p =
     (let timeSinceLastProcess = now - lastProcessTime p;
          timeSinceLastActivity = now - lastActivityTime p
      in if timeSinceLastActivity \<ge> maxWaitTime
         then Some ''Max wait time (45 seconds) reached''
         else if timeSinceLastProcess < minWaitTime then None
         else if timeSinceLastActivity \<ge> thoughtCompleteThreshold
         then Some ''Thought appears complete (10s pause)''
         else if detectNaturalBreak p then Some ''Natural break detected''
         else if hasUrgentSignals p then Some ''Urgent signals detected''
         else None)"

subsection \<open>\<open>processDiff\<close> and its helpers\<close>

definition newline :: string where
  "newline = [CHR 0x0A]"

text \<open>
  \<open>/\[DELETED:\s*([^\]]+)\]/\<close> at a position: the capture and the length of the match. The
  greedy \<open>\s*\<close> gives one white-space unit back when nothing else is left for the group.
\<close>

definition deletedAt :: "string \<Rightarrow> (string \<times> nat) option" where
  "deletedAt s =
     (if startsWith s ''[DELETED:''
      then (let body = takeWhile (\<lambda>c. c \<noteq> CHR '']'') (drop 9 s);
                rest = dropWhile (\<lambda>c. c \<noteq> CHR '']'') (drop 9 s)
            in if body = [] \<or> rest = [] then None
               else Some (if dropWhile isSpace body = [] then [last body]
                          else dropWhile isSpace body,
                          9 + length body + 1))
      else None)"

text \<open>
  \<open>text.replace(pattern, replacement)\<close> with the \<open>g\<close> flag, left to right: \<open>skip\<close>
  counts the units of the current match that are still to be passed over.
\<close>

fun replaceDeleted :: "nat \<Rightarrow> string \<Rightarrow> string" where
  "replaceDeleted skip [] = []"
| "replaceDeleted (Suc skip) (c # cs) = replaceDeleted skip cs"
| "replaceDeleted 0 (c # cs) =
     (case deletedAt (c # cs) of
        None \<Rightarrow> c # replaceDeleted 0 cs
      | Some (capture, len) \<Rightarrow>
          ''<deleted>'' @ capture @ ''</deleted>'' @ replaceDeleted (len - 1) cs)"

text \<open>\<open>"([^"]+)"\<close>: the capture and what follows the closing quote.\<close>

definition quotedAt :: "string \<Rightarrow> (string \<times> string) option" where
  "quotedAt s =
     (case s of
        [] \<Rightarrow> None
      | c # r \<Rightarrow>
          if c = CHR 0x22 \<and> takeWhile (\<lambda>x. x \<noteq> CHR 0x22) r \<noteq> [] \<and>
             dropWhile (\<lambda>x. x \<noteq> CHR 0x22) r \<noteq> []
          then Some (takeWhile (\<lambda>x. x \<noteq> CHR 0x22) r, tl (dropWhile (\<lambda>x. x \<noteq> CHR 0x22) r))
          else None)"

definition rightArrow :: string where
  "rightArrow = [CHR 0xE2, CHR 0x86, CHR 0x92]"

text \<open>
  \<open>/\[CHANGED:\s*"([^"]+)"\s*ARROW\s*"([^"]+)"\]/\<close> at a position: both captures and the
  length of the match.
\<close>

definition changedAt :: "string \<Rightarrow> (string \<times> string \<times> nat) option" where
  "changedAt s =
     (if startsWith s ''[CHANGED:''
      then (case quotedAt (dropWhile isSpace (drop 9 s)) of
              None \<Rightarrow> None
            | Some (old, r1) \<Rightarrow>
                if startsWith (dropWhile isSpace r1) rightArrow
                then (case quotedAt (dropWhile isSpace (drop 3 (dropWhile isSpace r1))) of
                        None \<Rightarrow> None
                      | Some (new, r2) \<Rightarrow>
                          if startsWith r2 '']''
                          then Some (old, new, length s - length (drop 1 r2))
                          else None)
                else None)
      else None)"

fun replaceChanged :: "nat \<Rightarrow> string \<Rightarrow> string" where
  "replaceChanged skip [] = []"
| "replaceChanged (Suc skip) (c # cs) = replaceChanged skip cs"
| "replaceChanged 0 (c # cs) =
     (case changedAt (c # cs) of
        None \<Rightarrow> c # replaceChanged 0 cs
      | Some (old, new, len) \<Rightarrow>
          ''<changed from='' @ [CHR 0x22] @ old @ [CHR 0x22] @ '' to='' @ [CHR 0x22] @ new
            @ [CHR 0x22] @ '' />'' @ replaceChanged (len - 1) cs)"

text \<open>
  \<open>text.split(/\s+/)\<close>: a run of white space is one separator (\<open>inSeparator\<close> while
  inside it), and empty strings at either end are kept, as JavaScript does.
\<close>

fun splitSpaces :: "bool \<Rightarrow> string \<Rightarrow> string \<Rightarrow> string list" where
  "splitSpaces inSeparator word [] = [word]"
| "splitSpaces inSeparator word (c # cs) =
     (if isSpace c
      then (if inSeparator then splitSpaces True word cs else word # splitSpaces True [] cs)
      else splitSpaces False (word @ [c]) cs)"

text \<open>
  \<open>isRepetitiveContent\<close>. The counts live in a plain object, so the inherited
  properties \<open>constructor\<close> and \<open>__proto__\<close> are found as counts of those words;
  \<open>maxCount\<close> then becomes \<open>NaN\<close> and the final comparison is false. \<open>maxCount >
  words.length * 0.3\<close> is compared exactly, as tenths.
\<close>

definition inheritedProperties :: "string list" where
  "inheritedProperties = [''constructor'', ''__proto__'']"

definition isRepetitiveContent :: "string \<Rightarrow> bool" where
  "isRepetitiveContent t =
     (if length t < 20 then False
      else (let words = splitSpaces False [] (toLowerCase t);
                counted = filter (\<lambda>w. length w > 3) words;
                maxCount = fold max (map (\<lambda>w. count_list counted w) counted) 0
            in if list_ex (\<lambda>w. w \<in> set inheritedProperties) counted then False
               else 10 * maxCount > 3 * length words))"

definition errorKeywords :: "string list" where
  "errorKeywords = [''error'', ''problem'', ''issue'', ''stuck'', ''failed'', ''wrong'', ''broken'']"

definition containsErrorKeywords :: "string \<Rightarrow> bool" where
  "containsErrorKeywords t = (t \<noteq> [] \<and> includesSome (toLowerCase t) errorKeywords)"

definition confusionKeywords :: "string list" where
  "confusionKeywords =
     [''confused'', ''dont understand'', ''don'' @ [CHR 0x27] @ ''t get'', ''lost'', ''help'',
      ''unclear'']"

definition containsConfusionKeywords :: "string \<Rightarrow> bool" where
  "containsConfusionKeywords t = (t \<noteq> [] \<and> includesSome (toLowerCase t) confusionKeywords)"

definition searchKeywords :: "string list" where
  "searchKeywords =
     [''search'', ''find'', ''looking for'', ''query'', ''google'', ''stack overflow'']"

definition isSearchActivity :: "string \<Rightarrow> bool" where
  "isSearchActivity t = (t \<noteq> [] \<and> includesSome (toLowerCase t) searchKeywords)"

definition composerMathKeywords :: "string list" where
  "composerMathKeywords =
     [''probability'', ''calculate'', ''dice'', ''roll'', ''fraction'', ''answer is'',
      ''equation'', ''formula'', ''solve'', ''result'', ''solution'', ''theorem'']"

definition isMathematicalContent :: "string \<Rightarrow> bool" where
  "isMathematicalContent t =
     (t \<noteq> [] \<and>
      (includesSome (toLowerCase t) composerMathKeywords \<or> testFraction t \<or> hasMathSymbols t))"

definition hasIncorrectMathAnswer :: "string \<Rightarrow> bool" where
  "hasIncorrectMathAnswer t =
     (t \<noteq> [] \<and>
      (includesSome t suspiciousFractions \<or>
       testLiteral False ''answer is 0'' True (toLowerCase t) \<or>
       testLiteral False ''answer is 1'' True (toLowerCase t) \<or>
       testLiteral True ''1/89'' True t \<or>
       testLiteral False ''divide by 0'' False (toLowerCase t)))"

definition wrapIf :: "bool \<Rightarrow> string \<Rightarrow> string \<Rightarrow> string" where
  "wrapIf detected tag processed =
     (if detected then ''<'' @ tag @ ''>'' @ processed @ ''</'' @ tag @ ''>'' else processed)"

definition tagRepetitive :: "string \<Rightarrow> string" where
  "tagRepetitive t = wrapIf (isRepetitiveContent t) ''repetitive'' t"

definition tagError :: "string \<Rightarrow> string" where
  "tagError t = wrapIf (containsErrorKeywords t) ''error_signal'' t"

definition tagConfusion :: "string \<Rightarrow> string" where
  "tagConfusion t = wrapIf (containsConfusionKeywords t) ''confusion_signal'' t"

definition tagSearch :: "string \<Rightarrow> string" where
  "tagSearch t = wrapIf (isSearchActivity t) ''search_activity'' t"

definition tagMath :: "string \<Rightarrow> string" where
  "tagMath t = wrapIf (isMathematicalContent t) ''mathematical_content'' t"

definition tagIncorrect :: "string \<Rightarrow> string" where
  "tagIncorrect t = wrapIf (hasIncorrectMathAnswer t) ''incorrect_answer_signal'' t"

text \<open>The second argument, \<open>fullText\<close>, is not used by the source.\<close>

definition processDiff :: "string \<Rightarrow> string \<Rightarrow> string" where
  "processDiff d full =
     (if d = [] then []
      else tagIncorrect (tagMath (tagSearch (tagConfusion (tagError (tagRepetitive
             (replaceChanged 0 (replaceDeleted 0 d))))))))"


subsection \<open>\<open>createStructuredBatch\<close>\<close>

text \<open>
  \<open>new URL(url)\<close> belongs to the platform, so the parser is a parameter \<open>parseUrl\<close>: the
  host name and the path name of a URL, \<open>None\<close> where the constructor throws.
\<close>

type_synonym urlParser = "string \<Rightarrow> (string \<times> string) option"

definition sanitizeUrl :: "urlParser \<Rightarrow> string \<Rightarrow> string" where
  "sanitizeUrl parseUrl u =
     (case parseUrl u of Some (hostname, pathname) \<Rightarrow> hostname @ pathname | None \<Rightarrow> take 50 u)"

definition calculateTimespan :: "captureEntry list \<Rightarrow> int" where
  "calculateTimespan batchData =
     (if length batchData < 2 then 0
      else (let times = map capturedAt batchData
            in fold max times (hd times) - fold min times (hd times)))"

text \<open>\<open>Math.round(ms / 1000)\<close>: halves go up.\<close>

definition roundSeconds :: "int \<Rightarrow> int" where
  "roundSeconds ms = (ms + 500) div 1000"

definition analyzeBehaviorPatterns :: "captureEntry list \<Rightarrow> string" where
  \<open>analyzeBehaviorPatterns batchData =
     (let urls = remdups (filter (\<lambda>u. u \<noteq> []) (map url batchData));
          rapidChanges = filter (\<lambda>entry. diff entry \<noteq> [] \<and> length (diff entry) < 50) batchData;
          errorCount = length (filter (\<lambda>entry. containsErrorKeywords (diff entry)) batchData)
      in (if length urls > 3
          then ''<behavior type="context_switching" count="'' @ showNat (length urls)
                 @ ''" />'' @ newline
          else [])
         @ (if length rapidChanges > 5
            then ''<behavior type="rapid_changes" count="'' @ showNat (length rapidChanges)
                   @ ''" />'' @ newline
            else [])
         @ (if calculateTimespan batchData > 60000
            then ''<behavior type="prolonged_focus" duration="''
                   @ showInt (roundSeconds (calculateTimespan batchData)) @ ''s" />'' @ newline
            else [])
         @ (if errorCount > 2
            then ''<behavior type="frequent_errors" count="'' @ showNat errorCount
                   @ ''" />'' @ newline
            else []))\<close>

text \<open>
  The body of the \<open>for\<close> loop: the text so far and \<open>lastTimestamp\<close> (\<open>None\<close> for
  \<open>null\<close>; a time of \<open>0\<close> is falsy as well).
\<close>

definition composeEntry :: "captureEntry \<Rightarrow> string \<times> int option \<Rightarrow> string \<times> int option" where
  \<open>composeEntry entry acc =
     (let currentTime = capturedAt entry;
          delayed = (case snd acc of
                       None \<Rightarrow> fst acc
                     | Some lastTimestamp \<Rightarrow>
                         if lastTimestamp \<noteq> 0 \<and> currentTime - lastTimestamp > 5000
                         then fst acc @ ''<delay time="''
                                @ showInt (roundSeconds (currentTime - lastTimestamp))
                                @ ''s" />'' @ newline
                         else fst acc);
          processedDiff = processDiff (diff entry) (fullText entry)
      in (if trim processedDiff \<noteq> []
          then delayed @ ''<change timestamp="'' @ entryTimestamp entry @ ''">'' @ newline
                 @ processedDiff @ newline @ ''</change>'' @ newline
          else delayed,
          Some currentTime))\<close>

definition contextTag :: "urlParser \<Rightarrow> captureEntry list \<Rightarrow> string" where
  \<open>contextTag parseUrl sortedData =
     (if sortedData \<noteq> [] \<and> url (last sortedData) \<noteq> []
      then ''<context url="'' @ sanitizeUrl parseUrl (url (last sortedData)) @ ''" />'' @ newline
      else [])\<close>

definition batchHeader :: "int \<Rightarrow> captureEntry list \<Rightarrow> string" where
  \<open>batchHeader now batchData =
     ''<batch timestamp="'' @ showInt now @ ''" entries="'' @ showNat (length batchData)
       @ ''">'' @ newline\<close>

definition createStructuredBatch :: "urlParser \<Rightarrow> int \<Rightarrow> captureEntry list \<Rightarrow> string" where
  "createStructuredBatch parseUrl now batchData =
     (let sortedData = sort_key capturedAt batchData
      in fst (fold composeEntry sortedData (batchHeader now batchData, None))
         @ contextTag parseUrl sortedData
         @ analyzeBehaviorPatterns sortedData
         @ ''</batch>'')"

subsection \<open>\<open>processBatch\<close>, the polling timer and \<open>forceProcessBatch\<close>\<close>

text \<open>The local variable \<open>batchData\<close> of \<open>processBatch\<close>: the entries the batch is made of.\<close>

definition batchData :: "tandemProcessor \<Rightarrow> captureEntry list" where
  "batchData p = filter (\<lambda>entry. receivedAt entry > lastProcessTime p) (rawCaptureData p)"

definition pushBatch :: "batch \<Rightarrow> batch list \<Rightarrow> batch list" where
  "pushBatch b batches =
     (if length (batches @ [b]) > 10 then sliceLast 10 (batches @ [b]) else batches @ [b])"

definition sealedBatch :: "urlParser \<Rightarrow> int \<Rightarrow> captureEntry list \<Rightarrow> batch" where
  "sealedBatch parseUrl now entries =
     \<lparr>batchId = ''batch_'' @ showInt now, batchTimestamp = now,
      structuredText = createStructuredBatch parseUrl now entries,
      rawEntryCount = length entries, timespan = calculateTimespan entries\<rparr>"

definition processBatch ::
  "urlParser \<Rightarrow> int \<Rightarrow> tandemProcessor \<Rightarrow> tandemProcessor \<times> batch option" where
  "processBatch parseUrl now p =
     (if batchData p = [] then (p\<lparr>isProcessing := False\<rparr>, None)
      else (p\<lparr>structuredBatches :=
                pushBatch (sealedBatch parseUrl now (batchData p)) (structuredBatches p),
              lastProcessTime := now, isProcessing := False\<rparr>,
            Some (sealedBatch parseUrl now (batchData p))))"

text \<open>One firing of the five-second interval timer of \<open>startDynamicBatchProcessing\<close>.\<close>

definition pollTick ::
  "urlParser \<Rightarrow> int \<Rightarrow> tandemProcessor \<Rightarrow> tandemProcessor \<times> batch option" where
  "pollTick parseUrl now p =
     (if \<not> isProcessing p \<and> length (rawCaptureData p) > 0
      then (case shouldProcessBatch now p of
              None \<Rightarrow> (p, None)
            | Some reason \<Rightarrow> processBatch parseUrl now p)
      else (p, None))"

definition forceProcessBatch ::
  "urlParser \<Rightarrow> int \<Rightarrow> tandemProcessor \<Rightarrow> tandemProcessor \<times> batch option" where
  "forceProcessBatch parseUrl now p =
     (if length (rawCaptureData p) = 0 then (p, None)
      else (let originalLastProcessTime = lastProcessTime p;
                r = processBatch parseUrl now (p\<lparr>lastProcessTime := 0\<rparr>)
            in ((fst r)\<lparr>lastProcessTime := originalLastProcessTime\<rparr>, snd r)))"

subsection \<open>Activity sequences\<close>

text \<open>
  What happens to a processor, each with its clock reading: a capture arrives, the
  polling timer fires, or the user triggers a batch by hand.
\<close>

datatype activity = Capture int captureEntry | Poll int | ForceBatch int

fun react :: "urlParser \<Rightarrow> tandemProcessor \<Rightarrow> activity \<Rightarrow> tandemProcessor" where
  "react parseUrl p (Capture now e) = addCaptureData now e p"
| "react parseUrl p (Poll now) = fst (pollTick parseUrl now p)"
| "react parseUrl p (ForceBatch now) = fst (forceProcessBatch parseUrl now p)"

definition replay :: "urlParser \<Rightarrow> tandemProcessor \<Rightarrow> activity list \<Rightarrow> tandemProcessor" where
  "replay parseUrl p activities = foldl (react parseUrl) p activities"


section \<open>The claims' own vocabulary\<close>


text \<open>
  The applicable cooldown in the words of the specification: the level-indexed table
  (10 s, 15 s, 20 s and 30 s for the levels 0 to 3), replaced by a flat five seconds for
  success without problems, capped at eight seconds when mathematical content comes with
  problems.
\<close>

definition specCooldownTable :: "int \<Rightarrow> int" where
  "specCooldownTable level =
     (if level = 0 then 10000 else if level = 1 then 15000
      else if level = 2 then 20000 else 30000)"

definition applicableCooldown :: "analysis \<Rightarrow> nudgeSystem \<Rightarrow> int" where
  "applicableCooldown a s =
     (if hasMathematicalContent (patterns a) \<and> concerningSignals a > 0
      then min (specCooldownTable (interferenceLevel s)) 8000
      else if hasSuccessIndicators (patterns a) \<and> concerningSignals a = 0 then 5000
      else specCooldownTable (interferenceLevel s))"

text \<open>The scoring table of the specification as one sum.\<close>

definition score :: "string \<Rightarrow> nat" where
  \<open>score t =
     (if includes_str t ''<error_signal>'' then 1 else 0)
     + (if includes_str t ''<confusion_signal>'' then 2 else 0)
     + (if includes_str t ''<repetitive>'' then 1 else 0)
     + (if longDelays t \<noteq> [] then 1 else 0)
     + (if includes_str t ''type="context_switching"'' then 1 else 0)
     + (if includes_str t ''type="frequent_errors"'' then 2 else 0)
     + (if includes_str t ''type="prolonged_focus"'' \<and> longFocus t then 1 else 0)
     + (if hasMathContent (detectMathematicalContent t) \<and>
           hasIncorrectAnswer (detectMathematicalContent t) then 2 else 0)
     + (if includes_str t ''<incorrect_answer_signal>'' then 3 else 0)\<close>

text \<open>Concrete inputs used to exercise the theorems below.\<close>

definition quietBatch :: batch where
  "quietBatch =
     \<lparr>batchId = ''batch_900'', batchTimestamp = 900, structuredText = ''<batch>ok</batch>'',
      rawEntryCount = 1, timespan = 0\<rparr>"

definition errorBatch :: batch where
  "errorBatch =
     \<lparr>batchId = ''batch_900'', batchTimestamp = 900,
      structuredText = ''<error_signal>stuck</error_signal>'',
      rawEntryCount = 1, timespan = 0\<rparr>"

definition scenarioBText :: string where
  \<open>scenarioBText =
     ''<incorrect_answer_signal>1/90</incorrect_answer_signal><behavior type="frequent_errors" count="3" />''\<close>

definition scenarioCText :: string where
  "scenarioCText = ''two dice: the answer is 15/36''"

definition scenarioBBatch :: batch where
  "scenarioBBatch =
     \<lparr>batchId = ''batch_900'', batchTimestamp = 900, structuredText = scenarioBText,
      rawEntryCount = 4, timespan = 0\<rparr>"

definition scenarioCBatch :: batch where
  "scenarioCBatch =
     \<lparr>batchId = ''batch_1900'', batchTimestamp = 1900, structuredText = scenarioCText,
      rawEntryCount = 1, timespan = 0\<rparr>"

text \<open>
  A URL parser for the examples, and a capture as the content script sends it: one typed
  character on the example page (the receipt time is filled in by \<open>addCaptureData\<close>).
\<close>

definition examplePage :: string where
  "examplePage = ''https://example.org/p''"

definition exampleParser :: urlParser where
  "exampleParser u = (if u = examplePage then Some (''example.org'', ''/p'') else None)"

definition keystroke :: "string \<Rightarrow> int \<Rightarrow> captureEntry" where
  "keystroke n t =
     \<lparr>entryTimestamp = n, diff = ''x'', fullText = ''x'', url = examplePage,
      capturedAt = t, receivedAt = 0\<rparr>"

text \<open>Entries that are single typed characters on one page.\<close>

definition plainTyping :: "tandemProcessor \<Rightarrow> bool" where
  "plainTyping p = list_all (\<lambda>e. diff e = ''x'' \<and> url e = examplePage) (rawCaptureData p)"

text \<open>
  An activity sequence for the seal ceiling. A first capture is sealed by the poll ten
  seconds later (\<open>firstSeal\<close>). Then the user types for a little more than two minutes, a
  capture every nine seconds, while the timer polls every five seconds
  (\<open>typingBurst\<close>); after the last capture, at 1137000, the timer does not fire again
  until 1182000.
\<close>

definition firstSeal :: "activity list" where
  "firstSeal = [Capture 1000000 (keystroke ''01'' 1000000), Poll 1005000, Poll 1010000]"

definition typingBurst :: "activity list" where
  "typingBurst =
     [Capture 1011000 (keystroke ''02'' 1011000), Poll 1015000,
      Capture 1020000 (keystroke ''03'' 1020000), Poll 1020000, Poll 1025000,
      Capture 1029000 (keystroke ''04'' 1029000), Poll 1030000, Poll 1035000,
      Capture 1038000 (keystroke ''05'' 1038000), Poll 1040000, Poll 1045000,
      Capture 1047000 (keystroke ''06'' 1047000), Poll 1050000, Poll 1055000,
      Capture 1056000 (keystroke ''07'' 1056000), Poll 1060000,
      Capture 1065000 (keystroke ''08'' 1065000), Poll 1065000, Poll 1070000,
      Capture 1074000 (keystroke ''09'' 1074000), Poll 1075000, Poll 1080000,
      Capture 1083000 (keystroke ''10'' 1083000), Poll 1085000, Poll 1090000,
      Capture 1092000 (keystroke ''11'' 1092000), Poll 1095000, Poll 1100000,
      Capture 1101000 (keystroke ''12'' 1101000), Poll 1105000,
      Capture 1110000 (keystroke ''13'' 1110000), Poll 1110000, Poll 1115000,
      Capture 1119000 (keystroke ''14'' 1119000), Poll 1120000, Poll 1125000,
      Capture 1128000 (keystroke ''15'' 1128000), Poll 1130000, Poll 1135000,
      Capture 1137000 (keystroke ''16'' 1137000)]"

definition beforeLatePoll :: tandemProcessor where
  "beforeLatePoll = replay exampleParser newTandemProcessor (firstSeal @ typingBurst)"

text \<open>
  An activity sequence for the manual trigger: a capture, sealed by the poll at 1010000; a
  second capture at 1020000; the user asks for a nudge at 1021000; the poll at 1025000
  leaves things as they are and the poll at 1030000 seals again.
\<close>

definition beforeManualTrigger :: tandemProcessor where
  "beforeManualTrigger =
     replay exampleParser newTandemProcessor
       (firstSeal @ [Capture 1020000 (keystroke ''02'' 1020000)])"

definition afterManualTrigger :: tandemProcessor where
  "afterManualTrigger = fst (forceProcessBatch exampleParser 1021000 beforeManualTrigger)"

text \<open>
  No automatic seal during a stretch of activities: every poll in it comes back without a
  batch.
\<close>

fun withoutSeal :: "urlParser \<Rightarrow> tandemProcessor \<Rightarrow> activity list \<Rightarrow> bool" where
  "withoutSeal parseUrl p [] = True"
| "withoutSeal parseUrl p (a # activities) =
     ((case a of Poll now \<Rightarrow> snd (pollTick parseUrl now p) = None | _ \<Rightarrow> True) \<and>
      withoutSeal parseUrl (react parseUrl p a) activities)"

definition stuckEntry :: captureEntry where
  "stuckEntry =
     \<lparr>entryTimestamp = ''01'', diff = ''stuck'', fullText = ''I am stuck'', url = examplePage,
      capturedAt = 1000000, receivedAt = 1000000\<rparr>"


text \<open>
  Read off an activity sequence that starts in state \<open>p\<close>: the clock reading of an
  activity; the clock reading of the last capture; of the last poll that sealed a batch
  (the last automatic seal); and of the last seal of either kind, automatic or forced.
  Each is \<open>t\<close> when the sequence has no such activity.
\<close>

fun clockOf :: "activity \<Rightarrow> int" where
  "clockOf (Capture now e) = now"
| "clockOf (Poll now) = now"
| "clockOf (ForceBatch now) = now"

fun lastCapture :: "int \<Rightarrow> activity list \<Rightarrow> int" where
  "lastCapture t [] = t"
| "lastCapture t (a # activities) =
     lastCapture (case a of Capture now e \<Rightarrow> now | _ \<Rightarrow> t) activities"

fun lastAutomaticSeal :: "urlParser \<Rightarrow> int \<Rightarrow> tandemProcessor \<Rightarrow> activity list \<Rightarrow> int" where
  "lastAutomaticSeal parseUrl t p [] = t"
| "lastAutomaticSeal parseUrl t p (a # activities) =
     lastAutomaticSeal parseUrl
       (case a of
          Poll now \<Rightarrow> if snd (pollTick parseUrl now p) = None then t else now
        | _ \<Rightarrow> t)
       (react parseUrl p a) activities"

fun lastSeal :: "urlParser \<Rightarrow> int \<Rightarrow> tandemProcessor \<Rightarrow> activity list \<Rightarrow> int" where
  "lastSeal parseUrl t p [] = t"
| "lastSeal parseUrl t p (a # activities) =
     lastSeal parseUrl
       (case a of
          Poll now \<Rightarrow> if snd (pollTick parseUrl now p) = None then t else now
        | ForceBatch now \<Rightarrow> if snd (forceProcessBatch parseUrl now p) = None then t else now
        | Capture now e \<Rightarrow> t)
       (react parseUrl p a) activities"

text \<open>
  An activity sequence in which a capture arrives right after a seal, at the same clock
  reading: the poll at 1010000 seals the first capture, and the second capture is
  received while the clock still reads 1010000.
\<close>

definition captureAtSealTime :: "activity list" where
  "captureAtSealTime = firstSeal @ [Capture 1010000 (keystroke ''02'' 1010000)]"

text \<open>
  A session that moves the level: a manual trigger on a quiet batch, an automatic analysis
  of the scenario B batch, one of the scenario C batch, and one of a batch with a single
  error tag a second later.
\<close>

definition manualOnQuiet :: operation where
  "manualOnQuiet = Manual 1000000 (Some quietBatch) ''key'' (ContentText ''Try again'')"

definition analysisOfB :: operation where
  "analysisOfB = Automatic 1001000 (Some scenarioBBatch) ''key'' NoContent"

definition analysisOfC :: operation where
  "analysisOfC = Automatic 1002000 (Some scenarioCBatch) ''key'' NoContent"

definition analysisOfError :: operation where
  "analysisOfError = Automatic 1003000 (Some errorBatch) ''key'' NoContent"

definition movingSession :: "operation list" where
  "movingSession = [manualOnQuiet, analysisOfB, analysisOfC, analysisOfError]"

text \<open>
  An activity sequence with a forced seal: a capture, a manual trigger a second later, a
  second capture a second after that.
\<close>

definition forcedThenCapture :: "activity list" where
  "forcedThenCapture =
     [Capture 1000000 (keystroke ''01'' 1000000), ForceBatch 1001000,
      Capture 1002000 (keystroke ''02'' 1002000)]"








section \<open>Properties of the string primitives\<close>

lemma startsWith_prefix: "startsWith t p \<longleftrightarrow> prefix p t"
  by (induction t p rule: startsWith.induct) auto

text \<open>\<open>includes_str\<close> is the contiguous-sublist relation of the library.\<close>

lemma includes_sublist: "includes_str t p \<longleftrightarrow> sublist p t"
proof (induction t)
  case Nil
  then show ?case by (simp add: startsWith_prefix)
next
  case (Cons c cs)
  then show ?case by (simp add: startsWith_prefix sublist_Cons_right)
qed

lemma includes_appendI: "includes_str t p \<Longrightarrow> includes_str (a @ t @ b) p"
  by (auto simp: includes_sublist sublist_def) (metis append.assoc)

lemma includes_map: "includes_str t p \<Longrightarrow> includes_str (map f t) (map f p)"
  unfolding includes_sublist sublist_def by (metis map_append)

section \<open>The interference level\<close>

lemma level_escalate:
  "0 \<le> interferenceLevel s \<Longrightarrow> interferenceLevel s \<le> 3 \<Longrightarrow>
   0 \<le> interferenceLevel (escalate a s) \<and> interferenceLevel (escalate a s) \<le> 3"
  by (auto simp: escalate_def)

lemma level_decay:
  "0 \<le> interferenceLevel s \<Longrightarrow> interferenceLevel s \<le> 3 \<Longrightarrow>
   0 \<le> interferenceLevel (decay now a s) \<and> interferenceLevel (decay now a s) \<le> 3"
  by (simp add: decay_def)

lemma level_update:
  "0 \<le> interferenceLevel s \<Longrightarrow> interferenceLevel s \<le> 3 \<Longrightarrow>
   0 \<le> interferenceLevel (updateInterferenceLevel now a s) \<and>
   interferenceLevel (updateInterferenceLevel now a s) \<le> 3"
  using level_decay [of "escalate a s" now a] level_escalate [of s a]
  by (simp add: updateInterferenceLevel_def)

lemma level_generateNudge:
  "interferenceLevel (fst (generateNudge now s b a reply)) = interferenceLevel s"
  by (simp add: generateNudge_def recordNudge_def Let_def split: sum.splits)

lemma level_generateForcedNudge:
  "interferenceLevel (fst (generateForcedNudge now s b a reply)) = interferenceLevel s"
  by (simp add: generateForcedNudge_def recordNudge_def Let_def split: sum.splits)

lemma level_markManual: "interferenceLevel (fst (markManual r)) = interferenceLevel (fst r)"
  by (simp add: markManual_def split: option.splits)

lemma level_analyzeAndNudge:
  "interferenceLevel (fst (analyzeAndNudge now s sb apiKey reply)) =
     (case sb of
        None \<Rightarrow> interferenceLevel s
      | Some b \<Rightarrow>
          if apiKey = [] then interferenceLevel s
          else interferenceLevel
                 (updateInterferenceLevel now (analyzeStructuredText (structuredText b)) s))"
  by (simp add: analyzeAndNudge_def Let_def level_generateNudge split: option.splits)

lemma level_forceAnalyzeAndNudge:
  "interferenceLevel (fst (forceAnalyzeAndNudge now s sb apiKey reply)) =
     (case sb of
        None \<Rightarrow> interferenceLevel s
      | Some b \<Rightarrow>
          if apiKey = [] then interferenceLevel s
          else if interferenceLevel s = 0 then 1 else interferenceLevel s)"
  by (simp add: forceAnalyzeAndNudge_def Let_def level_markManual level_generateForcedNudge
      split: option.splits)

lemma level_perform:
  "0 \<le> interferenceLevel s \<and> interferenceLevel s \<le> 3 \<Longrightarrow>
   0 \<le> interferenceLevel (perform s op) \<and> interferenceLevel (perform s op) \<le> 3"
proof (cases op)
  case (Automatic now sb apiKey reply)
  assume "0 \<le> interferenceLevel s \<and> interferenceLevel s \<le> 3"
  then show ?thesis
    using level_update [of s now] Automatic
    by (simp add: level_analyzeAndNudge split: option.splits)
next
  case (Manual now sb apiKey reply)
  assume "0 \<le> interferenceLevel s \<and> interferenceLevel s \<le> 3"
  then show ?thesis
    using Manual by (simp add: level_forceAnalyzeAndNudge split: option.splits)
qed

lemma level_foldl:
  "0 \<le> interferenceLevel s \<and> interferenceLevel s \<le> 3 \<Longrightarrow>
   0 \<le> interferenceLevel (foldl perform s ops) \<and> interferenceLevel (foldl perform s ops) \<le> 3"
proof (induction ops arbitrary: s)
  case Nil
  then show ?case by simp
next
  case (Cons op ops)
  then show ?case using level_perform [of s op] by simp
qed

text \<open>
  Claim C7 (level bounds). Whatever sequence of automatic analyses and manual triggers a
  freshly constructed nudge system goes through, its interference level afterwards is one
  of 0, 1, 2, 3. Every prefix of a sequence is a sequence, so this holds before and after
  every step.
\<close>

theorem level_bounds: "interferenceLevel (session ops) \<in> {0, 1, 2, 3}"
proof -
  have "0 \<le> interferenceLevel (session ops) \<and> interferenceLevel (session ops) \<le> 3"
    unfolding session_def by (rule level_foldl) (simp add: newNudgeSystem_def)
  then show ?thesis by auto
qed

section \<open>The analysis, field by field\<close>

lemma score_steps:
  "concerningSignals (checkErrorSignal t a) =
     concerningSignals a + (if includes_str t ''<error_signal>'' then 1 else 0)"
  "concerningSignals (checkConfusionSignal t a) =
     concerningSignals a + (if includes_str t ''<confusion_signal>'' then 2 else 0)"
  "concerningSignals (checkRepetitive t a) =
     concerningSignals a + (if includes_str t ''<repetitive>'' then 1 else 0)"
  "concerningSignals (checkLongDelays t a) =
     concerningSignals a + (if longDelays t \<noteq> [] then 1 else 0)"
  "concerningSignals (checkMathematicalContent t a) =
     concerningSignals a +
       (if hasMathContent (detectMathematicalContent t) \<and>
           hasIncorrectAnswer (detectMathematicalContent t) then 2 else 0)"
  "concerningSignals (checkIncorrectAnswerSignal t a) =
     concerningSignals a + (if includes_str t ''<incorrect_answer_signal>'' then 3 else 0)"
  "concerningSignals (checkCompletion t a) = concerningSignals a"
  "concerningSignals (checkCorrectAnswer t a) = concerningSignals a"
  "concerningSignals (determineUrgency a) = concerningSignals a"
  by (simp_all add: checkErrorSignal_def checkConfusionSignal_def checkRepetitive_def
      checkLongDelays_def checkMathematicalContent_def checkIncorrectAnswerSignal_def
      checkCompletion_def checkCorrectAnswer_def determineUrgency_def addSignal_def)

lemma score_steps_behavior:
  \<open>concerningSignals (checkContextSwitching t a) =
     concerningSignals a + (if includes_str t ''type="context_switching"'' then 1 else 0)\<close>
  \<open>concerningSignals (checkFrequentErrors t a) =
     concerningSignals a + (if includes_str t ''type="frequent_errors"'' then 2 else 0)\<close>
  \<open>concerningSignals (checkProlongedFocus t a) =
     concerningSignals a +
       (if includes_str t ''type="prolonged_focus"'' \<and> longFocus t then 1 else 0)\<close>
  by (simp_all add: checkContextSwitching_def checkFrequentErrors_def checkProlongedFocus_def
      addSignal_def)

lemma concerningSignals_score: "concerningSignals (analyzeStructuredText t) = score t"
  unfolding analyzeStructuredText_def score_def score_steps score_steps_behavior
  by (simp add: initialAnalysis_def)

lemma urgency_steps:
  "urgency (checkErrorSignal t a) = urgency a"
  "urgency (checkConfusionSignal t a) = urgency a"
  "urgency (checkRepetitive t a) = urgency a"
  "urgency (checkLongDelays t a) = urgency a"
  "urgency (checkContextSwitching t a) = urgency a"
  "urgency (checkFrequentErrors t a) = urgency a"
  "urgency (checkProlongedFocus t a) = urgency a"
  "urgency (checkMathematicalContent t a) = urgency a"
  "urgency (checkIncorrectAnswerSignal t a) = urgency a"
  "urgency (checkCompletion t a) = urgency a"
  "urgency (checkCorrectAnswer t a) = urgency a"
  by (simp_all add: checkErrorSignal_def checkConfusionSignal_def checkRepetitive_def checkLongDelays_def checkContextSwitching_def checkFrequentErrors_def checkProlongedFocus_def checkMathematicalContent_def checkIncorrectAnswerSignal_def checkCompletion_def checkCorrectAnswer_def
      addSignal_def)

lemma math_steps:
  "hasMathematicalContent (patterns (checkErrorSignal t a)) = hasMathematicalContent (patterns a)"
  "hasMathematicalContent (patterns (checkConfusionSignal t a)) = hasMathematicalContent (patterns a)"
  "hasMathematicalContent (patterns (checkRepetitive t a)) = hasMathematicalContent (patterns a)"
  "hasMathematicalContent (patterns (checkLongDelays t a)) = hasMathematicalContent (patterns a)"
  "hasMathematicalContent (patterns (checkContextSwitching t a)) = hasMathematicalContent (patterns a)"
  "hasMathematicalContent (patterns (checkFrequentErrors t a)) = hasMathematicalContent (patterns a)"
  "hasMathematicalContent (patterns (checkProlongedFocus t a)) = hasMathematicalContent (patterns a)"
  "hasMathematicalContent (patterns (checkMathematicalContent t a)) =
     (hasMathematicalContent (patterns a) \<or> hasMathContent (detectMathematicalContent t))" 
  "hasMathematicalContent (patterns (checkIncorrectAnswerSignal t a)) = hasMathematicalContent (patterns a)"
  "hasMathematicalContent (patterns (checkCompletion t a)) = hasMathematicalContent (patterns a)"
  "hasMathematicalContent (patterns (checkCorrectAnswer t a)) = hasMathematicalContent (patterns a)"
  by (simp_all add: checkErrorSignal_def checkConfusionSignal_def checkRepetitive_def checkLongDelays_def checkContextSwitching_def checkFrequentErrors_def checkProlongedFocus_def checkMathematicalContent_def checkIncorrectAnswerSignal_def checkCompletion_def checkCorrectAnswer_def
      addSignal_def)

lemma success_steps:
  "hasSuccessIndicators (patterns (checkErrorSignal t a)) = hasSuccessIndicators (patterns a)"
  "hasSuccessIndicators (patterns (checkConfusionSignal t a)) = hasSuccessIndicators (patterns a)"
  "hasSuccessIndicators (patterns (checkRepetitive t a)) = hasSuccessIndicators (patterns a)"
  "hasSuccessIndicators (patterns (checkLongDelays t a)) = hasSuccessIndicators (patterns a)"
  "hasSuccessIndicators (patterns (checkContextSwitching t a)) = hasSuccessIndicators (patterns a)"
  "hasSuccessIndicators (patterns (checkFrequentErrors t a)) = hasSuccessIndicators (patterns a)"
  "hasSuccessIndicators (patterns (checkProlongedFocus t a)) = hasSuccessIndicators (patterns a)"
  "hasSuccessIndicators (patterns (checkMathematicalContent t a)) = hasSuccessIndicators (patterns a)"
  "hasSuccessIndicators (patterns (checkIncorrectAnswerSignal t a)) = hasSuccessIndicators (patterns a)"
  "hasSuccessIndicators (patterns (checkCompletion t a)) = hasSuccessIndicators (patterns a)"
  "hasSuccessIndicators (patterns (checkCorrectAnswer t a)) =
     (hasSuccessIndicators (patterns a) \<or>
      (hasMathematicalContent (patterns a) \<and> mathCompletionPatterns (toLowerCase t)))" 
  by (auto simp add: checkErrorSignal_def checkConfusionSignal_def checkRepetitive_def checkLongDelays_def checkContextSwitching_def checkFrequentErrors_def checkProlongedFocus_def checkMathematicalContent_def checkIncorrectAnswerSignal_def checkCompletion_def checkCorrectAnswer_def
      addSignal_def)

lemma completion_steps:
  "hasCompletionSignals (patterns (checkErrorSignal t a)) = hasCompletionSignals (patterns a)"
  "hasCompletionSignals (patterns (checkConfusionSignal t a)) = hasCompletionSignals (patterns a)"
  "hasCompletionSignals (patterns (checkRepetitive t a)) = hasCompletionSignals (patterns a)"
  "hasCompletionSignals (patterns (checkLongDelays t a)) = hasCompletionSignals (patterns a)"
  "hasCompletionSignals (patterns (checkContextSwitching t a)) = hasCompletionSignals (patterns a)"
  "hasCompletionSignals (patterns (checkFrequentErrors t a)) = hasCompletionSignals (patterns a)"
  "hasCompletionSignals (patterns (checkProlongedFocus t a)) = hasCompletionSignals (patterns a)"
  "hasCompletionSignals (patterns (checkMathematicalContent t a)) = hasCompletionSignals (patterns a)"
  "hasCompletionSignals (patterns (checkIncorrectAnswerSignal t a)) = hasCompletionSignals (patterns a)"
  "hasCompletionSignals (patterns (checkCompletion t a)) =
     (hasCompletionSignals (patterns a) \<or> includesSome (toLowerCase t) completionKeywords)" 
  "hasCompletionSignals (patterns (checkCorrectAnswer t a)) = hasCompletionSignals (patterns a)"
  by (simp_all add: checkErrorSignal_def checkConfusionSignal_def checkRepetitive_def checkLongDelays_def checkContextSwitching_def checkFrequentErrors_def checkProlongedFocus_def checkMathematicalContent_def checkIncorrectAnswerSignal_def checkCompletion_def checkCorrectAnswer_def
      addSignal_def)


lemma patterns_determineUrgency: "patterns (determineUrgency a) = patterns a"
  by (simp add: determineUrgency_def)

lemma urgency_analyze:
  "urgency (analyzeStructuredText t) =
     (if score t \<ge> 6 then High else if score t \<ge> 3 then Medium else Low)"
proof -
  define pre where "pre = checkCorrectAnswer t (checkCompletion t
       (checkIncorrectAnswerSignal t (checkMathematicalContent t
         (checkProlongedFocus t (checkFrequentErrors t (checkContextSwitching t
           (checkLongDelays t (checkRepetitive t (checkConfusionSignal t
             (checkErrorSignal t initialAnalysis))))))))))"
  have whole: "analyzeStructuredText t = determineUrgency pre"
    by (simp add: analyzeStructuredText_def pre_def)
  have low: "urgency pre = Low"
    unfolding pre_def urgency_steps by (simp add: initialAnalysis_def)
  have "concerningSignals pre = score t"
    using concerningSignals_score [of t] by (simp add: whole score_steps)
  with low show ?thesis
    by (simp add: whole determineUrgency_def)
qed

lemma hasMathematicalContent_analyze:
  "hasMathematicalContent (patterns (analyzeStructuredText t)) =
     hasMathContent (detectMathematicalContent t)"
  unfolding analyzeStructuredText_def patterns_determineUrgency math_steps
  by (simp add: initialAnalysis_def)

lemma hasCompletionSignals_analyze:
  "hasCompletionSignals (patterns (analyzeStructuredText t)) =
     includesSome (toLowerCase t) completionKeywords"
  unfolding analyzeStructuredText_def patterns_determineUrgency completion_steps
  by (simp add: initialAnalysis_def)

lemma hasSuccessIndicators_analyze:
  "hasSuccessIndicators (patterns (analyzeStructuredText t)) =
     (hasMathContent (detectMathematicalContent t) \<and> mathCompletionPatterns (toLowerCase t))"
  unfolding analyzeStructuredText_def patterns_determineUrgency success_steps math_steps
  by (simp add: initialAnalysis_def)

section \<open>Scenario B\<close>

lemma lower_scenarioBText: "toLowerCase scenarioBText = scenarioBText"
  by (simp add: scenarioBText_def toLowerCase_def toLowerChar_def upperLetters_def
      lowerLetters_def)

lemma scenarioBText_tags:
  "includes_str scenarioBText ''<incorrect_answer_signal>''"
  \<open>includes_str scenarioBText ''type="frequent_errors"''\<close>
  "\<not> includes_str scenarioBText ''<error_signal>''"
  "\<not> includes_str scenarioBText ''<confusion_signal>''"
  "\<not> includes_str scenarioBText ''<repetitive>''"
  \<open>\<not> includes_str scenarioBText ''type="context_switching"''\<close>
  \<open>\<not> includes_str scenarioBText ''type="prolonged_focus"''\<close>
  by (simp_all add: scenarioBText_def)

lemma scenarioBText_delays: "longDelays scenarioBText = []"
  by (simp add: scenarioBText_def longDelays_def delaySeconds_def digitsThenAt_def)

lemma scenarioBText_dice: "\<not> isDiceProblem scenarioBText"
  unfolding isDiceProblem_def lower_scenarioBText by (simp add: scenarioBText_def)

lemma scenarioBText_errorPatterns: "\<not> errorPatterns scenarioBText"
  unfolding errorPatterns_def lower_scenarioBText
  by (simp add: scenarioBText_def testLiteral_def literalAt_def)

lemma scenarioBText_math: "\<not> hasIncorrectAnswer (detectMathematicalContent scenarioBText)"
  by (simp add: detectMathematicalContent_def scenarioBText_dice scenarioBText_errorPatterns)


lemma scenarioBText_score: "score scenarioBText = 5"
  by (simp add: score_def scenarioBText_tags scenarioBText_delays scenarioBText_math)

text \<open>
  Claim C2 (scenario B). A batch text with the incorrect-answer tag and the
  frequent-errors marker, and none of the other seven rows of the scoring table, gets the
  score 3 + 2 = 5 and the urgency medium, and the update of the interference level that
  follows leaves the level at 2 or more, whatever the state and the clock.
\<close>

theorem scenario_B:
  assumes "includes_str t ''<incorrect_answer_signal>''"
    and \<open>includes_str t ''type="frequent_errors"''\<close>
    and "\<not> includes_str t ''<error_signal>''"
    and "\<not> includes_str t ''<confusion_signal>''"
    and "\<not> includes_str t ''<repetitive>''"
    and "longDelays t = []"
    and \<open>\<not> includes_str t ''type="context_switching"''\<close>
    and \<open>\<not> (includes_str t ''type="prolonged_focus"'' \<and> longFocus t)\<close>
    and "\<not> (hasMathContent (detectMathematicalContent t) \<and>
             hasIncorrectAnswer (detectMathematicalContent t))"
  shows "concerningSignals (analyzeStructuredText t) = 5 \<and>
         urgency (analyzeStructuredText t) = Medium \<and>
         interferenceLevel (updateInterferenceLevel now (analyzeStructuredText t) s) \<ge> 2"
proof -
  have five: "score t = 5"
    using assms by (simp add: score_def)
  have signals: "concerningSignals (analyzeStructuredText t) = 5"
    by (simp add: concerningSignals_score five)
  have medium: "urgency (analyzeStructuredText t) = Medium"
    by (simp add: urgency_analyze five)
  have "interferenceLevel (updateInterferenceLevel now (analyzeStructuredText t) s) \<ge> 2"
    by (simp add: updateInterferenceLevel_def escalate_def decay_def signals
        toLevel1_def toLevel2_def toLevel3_def)
  with signals medium show ?thesis by simp
qed

theorem scenario_B_witness:
  "concerningSignals (analyzeStructuredText scenarioBText) = 5 \<and>
   urgency (analyzeStructuredText scenarioBText) = Medium \<and>
   interferenceLevel
     (updateInterferenceLevel 1000 (analyzeStructuredText scenarioBText) newNudgeSystem) \<ge> 2"
  by (rule scenario_B)
    (simp_all add: scenarioBText_tags scenarioBText_delays scenarioBText_math)

section \<open>Cooldowns\<close>

lemma tableCooldown_spec:
  "interferenceLevel s \<in> {0, 1, 2, 3} \<Longrightarrow>
   tableCooldown s = specCooldownTable (interferenceLevel s)"
  by (auto simp: tableCooldown_def nudgeCooldowns_def specCooldownTable_def)

lemma cooldown_spec:
  "interferenceLevel s \<in> {0, 1, 2, 3} \<Longrightarrow> cooldown a s = applicableCooldown a s"
  by (simp add: cooldown_def applicableCooldown_def tableCooldown_spec Let_def)

text \<open>
  Claim C8 (cooldown respect). In every state whose level is one of 0 to 3, and for every
  analysis, \<open>shouldNudge\<close> is false as long as the time since the last nudge does not
  exceed the applicable cooldown as the specification describes it.
\<close>

theorem cooldown_respected:
  assumes "interferenceLevel s \<in> {0, 1, 2, 3}"
    and "now - lastNudgeTime s \<le> applicableCooldown a s"
  shows "\<not> shouldNudge now a s"
  using assms by (simp add: shouldNudge_def cooldown_spec)

theorem cooldown_respected_witness:
  "\<not> shouldNudge 8000 (analyzeStructuredText scenarioBText) newNudgeSystem"
proof (rule cooldown_respected)
  show "interferenceLevel newNudgeSystem \<in> {0, 1, 2, 3}"
    by (simp add: newNudgeSystem_def)
  show "8000 - lastNudgeTime newNudgeSystem
          \<le> applicableCooldown (analyzeStructuredText scenarioBText) newNudgeSystem"
    by (simp add: applicableCooldown_def specCooldownTable_def newNudgeSystem_def
        concerningSignals_score scenarioBText_score)
qed

section \<open>Scenario C\<close>

lemma scan_suffix:
  "m (if a = [] then p else Some (last a)) s \<Longrightarrow> scanPositions m p (a @ s)"
proof (induction a arbitrary: p)
  case Nil
  then show ?case by (cases s) simp_all
next
  case (Cons c cs)
  then show ?case by (cases cs) auto
qed

lemma lower_phrase: "toLowerCase ''the answer is 15/36'' = ''the answer is 15/36''"
  by (simp add: toLowerCase_def toLowerChar_def upperLetters_def lowerLetters_def)

lemma phrase_lower:
  assumes "includes_str t ''the answer is 15/36''"
  shows "\<exists>a b. toLowerCase t = a @ ''the answer is 15/36'' @ b"
proof -
  have "includes_str (toLowerCase t) (toLowerCase ''the answer is 15/36'')"
    unfolding toLowerCase_def using assms by (rule includes_map)
  then show ?thesis
    by (simp add: lower_phrase includes_sublist sublist_def)
qed

lemma phrase_math:
  assumes "includes_str t ''the answer is 15/36''"
  shows "hasMathContent (detectMathematicalContent t)"
proof -
  obtain a b where "toLowerCase t = a @ ''the answer is 15/36'' @ b"
    using phrase_lower [OF assms] by blast
  then have "toLowerCase t = (a @ ''the '') @ ''answer is'' @ ('' 15/36'' @ b)"
    by simp
  then have "includes_str (toLowerCase t) ''answer is''"
    unfolding includes_sublist sublist_def by blast
  then have "includesSome (toLowerCase t) mathKeywords"
    by (simp add: includesSome_def mathKeywords_def)
  then show ?thesis
    by (simp add: detectMathematicalContent_def)
qed

lemma phrase_correct:
  assumes "includes_str t ''the answer is 15/36''"
  shows "mathCompletionPatterns (toLowerCase t)"
proof -
  obtain a b where "toLowerCase t = a @ ''the answer is 15/36'' @ b"
    using phrase_lower [OF assms] by blast
  then have split: "toLowerCase t = (a @ ''the '') @ (''answer is 15/36'' @ b)"
    by simp
  have "dotStarAt ''answer'' [''15''] prev (''answer is 15/36'' @ b)" for prev
    by (simp add: dotStarAt_def lineRest_def isLineTerminator_def)
  then have "testDotStar ''answer'' [''15''] (toLowerCase t)"
    unfolding testDotStar_def split by (intro scan_suffix)
  then show ?thesis
    by (simp add: mathCompletionPatterns_def)
qed

text \<open>
  Claim C6 (scenario C). A batch text that contains "the answer is 15/36" and matches no
  row of the scoring table is analysed as a success without concerns; the update that
  follows lowers the interference level by one, not below 0, and \<open>shouldNudge\<close> then
  waits five seconds, whatever the level. (The phrase alone makes the content
  mathematical, so nothing more has to be assumed about dice or probability.)
\<close>

theorem scenario_C:
  assumes "includes_str t ''the answer is 15/36''" and "score t = 0"
  shows "hasSuccessIndicators (patterns (analyzeStructuredText t)) \<and>
         concerningSignals (analyzeStructuredText t) = 0 \<and>
         interferenceLevel (updateInterferenceLevel now (analyzeStructuredText t) s)
           = max 0 (interferenceLevel s - 1) \<and>
         cooldown (analyzeStructuredText t) s' = 5000 \<and>
         shouldNudge now' (analyzeStructuredText t) s' = (now' - lastNudgeTime s' > 5000)"
proof -
  have success: "hasSuccessIndicators (patterns (analyzeStructuredText t))"
    using assms(1) by (simp add: hasSuccessIndicators_analyze phrase_math phrase_correct)
  have none: "concerningSignals (analyzeStructuredText t) = 0"
    using assms(2) by (simp add: concerningSignals_score)
  have lowered: "interferenceLevel (updateInterferenceLevel now (analyzeStructuredText t) s)
      = max 0 (interferenceLevel s - 1)"
    by (simp add: updateInterferenceLevel_def success none)
  have five: "cooldown (analyzeStructuredText t) s' = 5000"
    by (simp add: cooldown_def success none)
  have "shouldNudge now' (analyzeStructuredText t) s' = (now' - lastNudgeTime s' > 5000)"
    by (simp add: shouldNudge_def five success)
  with success none lowered five show ?thesis by simp
qed

lemma lower_scenarioCText: "toLowerCase scenarioCText = scenarioCText"
  by (simp add: scenarioCText_def toLowerCase_def toLowerChar_def upperLetters_def
      lowerLetters_def)

lemma scenarioCText_phrase: "includes_str scenarioCText ''the answer is 15/36''"
  by (simp add: scenarioCText_def)

lemma scenarioCText_tags:
  "\<not> includes_str scenarioCText ''<incorrect_answer_signal>''"
  \<open>\<not> includes_str scenarioCText ''type="frequent_errors"''\<close>
  "\<not> includes_str scenarioCText ''<error_signal>''"
  "\<not> includes_str scenarioCText ''<confusion_signal>''"
  "\<not> includes_str scenarioCText ''<repetitive>''"
  \<open>\<not> includes_str scenarioCText ''type="context_switching"''\<close>
  \<open>\<not> includes_str scenarioCText ''type="prolonged_focus"''\<close>
  by (simp_all add: scenarioCText_def)

lemma scenarioCText_delays: "longDelays scenarioCText = []"
  by (simp add: scenarioCText_def longDelays_def delaySeconds_def digitsThenAt_def)

lemma scenarioCText_suspicious: "\<not> includesSome scenarioCText suspiciousFractions"
  by (simp add: scenarioCText_def includesSome_def suspiciousFractions_def)

lemma scenarioCText_errorPatterns: "\<not> errorPatterns scenarioCText"
  unfolding errorPatterns_def lower_scenarioCText
  by (simp add: scenarioCText_def testLiteral_def literalAt_def wordBoundary_def
      isWordAt_def nextChar_def isWordChar_def isDigit_def upperLetters_def lowerLetters_def)

lemma scenarioCText_score: "score scenarioCText = 0"
  by (simp add: score_def scenarioCText_tags scenarioCText_delays
      detectMathematicalContent_def scenarioCText_suspicious scenarioCText_errorPatterns)

theorem scenario_C_witness:
  "hasSuccessIndicators (patterns (analyzeStructuredText scenarioCText)) \<and>
   concerningSignals (analyzeStructuredText scenarioCText) = 0 \<and>
   interferenceLevel
     (updateInterferenceLevel 400000 (analyzeStructuredText scenarioCText)
        (newNudgeSystem\<lparr>interferenceLevel := 2\<rparr>)) = 1 \<and>
   cooldown (analyzeStructuredText scenarioCText) (newNudgeSystem\<lparr>interferenceLevel := 1\<rparr>)
     = 5000 \<and>
   shouldNudge 6000 (analyzeStructuredText scenarioCText)
     (newNudgeSystem\<lparr>interferenceLevel := 1\<rparr>)"
  using scenario_C [OF scenarioCText_phrase scenarioCText_score,
      of 400000 "newNudgeSystem\<lparr>interferenceLevel := 2\<rparr>"
         "newNudgeSystem\<lparr>interferenceLevel := 1\<rparr>" 6000]
  by (simp add: newNudgeSystem_def)

section \<open>What changes the level\<close>








lemma scenarioCText_success:
  "hasSuccessIndicators (patterns (analyzeStructuredText scenarioCText))"
  using scenarioCText_phrase
  by (simp add: hasSuccessIndicators_analyze phrase_math phrase_correct)

section \<open>The nudge history and the time of the last nudge\<close>

lemma pushNudge_sliceLast: "pushNudge n history = sliceLast 20 (history @ [n])"
  by (simp add: pushNudge_def sliceLast_def)

lemma pushNudge_length: "length (pushNudge n history) = min 20 (length history + 1)"
  by (simp add: pushNudge_def)

lemma pushNudge_remark:
  "butlast (pushNudge n0 history) @ [n] = pushNudge n history"
  by (simp add: pushNudge_def butlast_append butlast_drop)

lemma recordNudge_result:
  "recordNudge now n s = (s', Some n') \<Longrightarrow>
   n' = n \<and> nudgeHistory s' = pushNudge n (nudgeHistory s) \<and> lastNudgeTime s' = now"
  by (auto simp: recordNudge_def)

lemma generateNudge_result:
  assumes "generateNudge now s b a reply = (s', Some n)"
  shows "nudgeHistory s' = pushNudge n (nudgeHistory s) \<and> lastNudgeTime s' = now \<and>
         nudgeTimestamp n = now"
  using assms
  by (auto simp: generateNudge_def Let_def emitNudge_def recordNudge_def
      split: sum.splits if_splits)

lemma generateForcedNudge_result:
  assumes "generateForcedNudge now s b a reply = (s', Some n)"
  shows "nudgeHistory s' = pushNudge n (nudgeHistory s) \<and> lastNudgeTime s' = now \<and>
         nudgeTimestamp n = now"
  using assms
  by (auto simp: generateForcedNudge_def Let_def recordNudge_def split: sum.splits)

lemma history_update: "nudgeHistory (updateInterferenceLevel now a s) = nudgeHistory s"
  by (simp add: updateInterferenceLevel_def escalate_def decay_def)

lemma analyzeAndNudge_result:
  assumes "analyzeAndNudge now s sb apiKey reply = (s', Some n)"
  shows "nudgeHistory s' = pushNudge n (nudgeHistory s) \<and> lastNudgeTime s' = now \<and>
         nudgeTimestamp n = now"
proof (cases sb)
  case None
  with assms show ?thesis by (simp add: analyzeAndNudge_def)
next
  case (Some b)
  define a where "a = analyzeStructuredText (structuredText b)"
  from assms Some have "generateNudge now (updateInterferenceLevel now a s) b a reply = (s', Some n)"
    by (simp add: analyzeAndNudge_def Let_def a_def split: if_splits)
  from generateNudge_result [OF this] show ?thesis
    by (simp add: history_update)
qed

lemma forceAnalyzeAndNudge_result:
  assumes "forceAnalyzeAndNudge now s sb apiKey reply = (s', Some n)"
  shows "nudgeHistory s' = pushNudge n (nudgeHistory s) \<and>
         lastNudgeTime s' = lastNudgeTime s \<and> nudgeTimestamp n = now \<and> manualTrigger n"
proof (cases sb)
  case None
  with assms show ?thesis by (simp add: forceAnalyzeAndNudge_def)
next
  case (Some b)
  define a where "a = analyzeStructuredText (structuredText b)"
  define s2 where "s2 = (if interferenceLevel (s\<lparr>lastNudgeTime := 0\<rparr>) = 0
      then s\<lparr>lastNudgeTime := 0, interferenceLevel := 1\<rparr> else s\<lparr>lastNudgeTime := 0\<rparr>)"
  define r where "r = generateForcedNudge now s2 b a reply"
  have hist: "nudgeHistory s2 = nudgeHistory s"
    by (simp add: s2_def)
  from assms Some have marked:
    "markManual ((fst r)\<lparr>lastNudgeTime := lastNudgeTime s\<rparr>, snd r) = (s', Some n)"
    by (simp add: forceAnalyzeAndNudge_def Let_def a_def s2_def r_def split: if_splits)
  then obtain n0 where n0: "snd r = Some n0"
    by (cases "snd r") (auto simp: markManual_def)
  then have "generateForcedNudge now s2 b a reply = (fst r, Some n0)"
    by (simp add: r_def prod_eq_iff)
  from generateForcedNudge_result [OF this]
  have r_facts: "nudgeHistory (fst r) = pushNudge n0 (nudgeHistory s)" "nudgeTimestamp n0 = now"
    by (simp_all add: hist)
  from marked n0 have "n = n0\<lparr>manualTrigger := True\<rparr>"
    and "s' = (fst r)\<lparr>lastNudgeTime := lastNudgeTime s,
                      nudgeHistory := butlast (nudgeHistory (fst r)) @ [n0\<lparr>manualTrigger := True\<rparr>]\<rparr>"
    by (auto simp: markManual_def)
  with r_facts show ?thesis
    by (simp add: pushNudge_remark)
qed

text \<open>
  Claim C5, as amended. Every nudge that an operation returns has been put into the
  history, which keeps the last twenty entries, and carries the clock reading of the
  operation as its emission time. After an automatic analysis that time is the new
  \<open>lastNudgeTime\<close>; after a manual trigger \<open>lastNudgeTime\<close> is what it was before
  the trigger.
\<close>

theorem nudge_recorded:
  "(analyzeAndNudge now s sb apiKey reply = (s', Some n) \<longrightarrow>
      nudgeHistory s' = sliceLast 20 (nudgeHistory s @ [n]) \<and>
      nudgeTimestamp n = now \<and> lastNudgeTime s' = nudgeTimestamp n) \<and>
   (forceAnalyzeAndNudge now s sb apiKey reply = (s', Some n) \<longrightarrow>
      nudgeHistory s' = sliceLast 20 (nudgeHistory s @ [n]) \<and>
      nudgeTimestamp n = now \<and> lastNudgeTime s' = lastNudgeTime s)"
  using analyzeAndNudge_result [of now s sb apiKey reply s' n]
    forceAnalyzeAndNudge_result [of now s sb apiKey reply s' n]
  by (simp add: pushNudge_sliceLast)

lemma callPrisma_plain: "callPrisma s (ContentText ''Try again'') = Inr (Some ''Try again'')"
proof -
  have "trim ''Try again'' = ''Try again''"
    and "toUpperCase ''Try again'' \<noteq> ''SILENT''"
    and "\<not> isGeneric ''Try again''"
    by code_simp+
  then show ?thesis
    by (simp add: callPrisma_def)
qed

lemma callPrisma_silent: "callPrisma s (ContentText '' Silent '') = Inr None"
proof -
  have "toUpperCase (trim '' Silent '') = ''SILENT''"
    by code_simp
  then show ?thesis
    by (simp add: callPrisma_def)
qed

lemma forced_on_fresh:
  "forceAnalyzeAndNudge 1000 newNudgeSystem (Some quietBatch) ''key'' (ContentText ''Try again'')
   = (\<lparr>nudgeHistory =
         [\<lparr>nudgeId = ''forced_nudge_'' @ showInt 1000, nudgeTimestamp = 1000, nudgeLevel = 1,
           nudgeText = ''Try again'',
           nudgeAnalysis = analyzeStructuredText (structuredText quietBatch),
           nudgeBatchId = batchId quietBatch, forced = True, manualTrigger = True\<rparr>],
       interferenceLevel = 1, lastNudgeTime = 0\<rparr>,
      Some \<lparr>nudgeId = ''forced_nudge_'' @ showInt 1000, nudgeTimestamp = 1000, nudgeLevel = 1,
            nudgeText = ''Try again'',
            nudgeAnalysis = analyzeStructuredText (structuredText quietBatch),
            nudgeBatchId = batchId quietBatch, forced = True, manualTrigger = True\<rparr>)"
  by (simp add: forceAnalyzeAndNudge_def Let_def newNudgeSystem_def generateForcedNudge_def
      callPrisma_plain recordNudge_def pushNudge_def markManual_def)

theorem forced_nudge_time_counterexample:
  "snd (forceAnalyzeAndNudge 1000 newNudgeSystem (Some quietBatch) ''key''
          (ContentText ''Try again'')) \<noteq> None \<and>
   nudgeTimestamp (the (snd (forceAnalyzeAndNudge 1000 newNudgeSystem (Some quietBatch) ''key''
          (ContentText ''Try again'')))) = 1000 \<and>
   lastNudgeTime (fst (forceAnalyzeAndNudge 1000 newNudgeSystem (Some quietBatch) ''key''
          (ContentText ''Try again''))) = 0"
  by (simp add: forced_on_fresh)

theorem nudge_recorded_witness:
  "nudgeHistory (fst (forceAnalyzeAndNudge 1000 newNudgeSystem (Some quietBatch) ''key''
          (ContentText ''Try again'')))
     = sliceLast 20 (nudgeHistory newNudgeSystem
         @ [the (snd (forceAnalyzeAndNudge 1000 newNudgeSystem (Some quietBatch) ''key''
                        (ContentText ''Try again'')))]) \<and>
   lastNudgeTime (fst (forceAnalyzeAndNudge 1000 newNudgeSystem (Some quietBatch) ''key''
          (ContentText ''Try again''))) = lastNudgeTime newNudgeSystem"
  using nudge_recorded [of 1000 newNudgeSystem "Some quietBatch" "''key''"
      "ContentText ''Try again''"
      "fst (forceAnalyzeAndNudge 1000 newNudgeSystem (Some quietBatch) ''key''
              (ContentText ''Try again''))"
      "the (snd (forceAnalyzeAndNudge 1000 newNudgeSystem (Some quietBatch) ''key''
              (ContentText ''Try again'')))"]
  by (simp add: forced_on_fresh)

section \<open>The silence contract\<close>

lemma errorBatch_score: "score (structuredText errorBatch) = 1"
proof -
  have lower: "toLowerCase ''<error_signal>stuck</error_signal>''
      = ''<error_signal>stuck</error_signal>''"
    by (simp add: toLowerCase_def toLowerChar_def upperLetters_def lowerLetters_def)
  have "\<not> errorPatterns ''<error_signal>stuck</error_signal>''"
    unfolding errorPatterns_def lower by (simp add: testLiteral_def literalAt_def)
  moreover have "\<not> isDiceProblem ''<error_signal>stuck</error_signal>''"
    unfolding isDiceProblem_def lower by simp
  moreover have "longDelays ''<error_signal>stuck</error_signal>'' = []"
    by (simp add: longDelays_def delaySeconds_def digitsThenAt_def)
  ultimately show ?thesis
    by (simp add: errorBatch_def score_def detectMathematicalContent_def)
qed

lemma cooldown_level0:
  "concerningSignals a > 0 \<Longrightarrow> interferenceLevel s = 0 \<Longrightarrow> cooldown a s \<le> 10000"
  by (simp add: cooldown_def tableCooldown_def nudgeCooldowns_def Let_def)

text \<open>
  Claim C1 (silence contract), at the input where the code departs from it. The batch
  scores 1, the model answers "Silent" with blanks around it, the request is automatic:
  \<open>callPrisma\<close> returns \<open>null\<close>, and \<open>generateNudge\<close>, which reads \<open>null\<close> as an empty
  reply, emits the generic fallback text. A nudge is returned, the history grows from 0 to
  1 and \<open>lastNudgeTime\<close> moves to the clock reading.
\<close>

theorem silent_reply_with_concern_nudges:
  "callPrisma newNudgeSystem (ContentText '' Silent '') = Inr None \<and>
   concerningSignals (analyzeStructuredText (structuredText errorBatch)) = 1 \<and>
   snd (analyzeAndNudge 100000 newNudgeSystem (Some errorBatch) ''key''
          (ContentText '' Silent '')) \<noteq> None \<and>
   nudgeText (the (snd (analyzeAndNudge 100000 newNudgeSystem (Some errorBatch) ''key''
          (ContentText '' Silent '')))) = emptyResponseFallback \<and>
   length (nudgeHistory newNudgeSystem) = 0 \<and>
   length (nudgeHistory (fst (analyzeAndNudge 100000 newNudgeSystem (Some errorBatch) ''key''
          (ContentText '' Silent '')))) = 1 \<and>
   lastNudgeTime newNudgeSystem = 0 \<and>
   lastNudgeTime (fst (analyzeAndNudge 100000 newNudgeSystem (Some errorBatch) ''key''
          (ContentText '' Silent ''))) = 100000"
proof -
  define a where "a = analyzeStructuredText (structuredText errorBatch)"
  have one: "concerningSignals a = 1"
    by (simp add: a_def concerningSignals_score errorBatch_score)
  have same: "updateInterferenceLevel 100000 a newNudgeSystem = newNudgeSystem"
    by (simp add: updateInterferenceLevel_def escalate_def decay_def one newNudgeSystem_def
        toLevel1_def toLevel2_def toLevel3_def)
  have "cooldown a newNudgeSystem \<le> 10000"
    by (rule cooldown_level0) (simp_all add: one newNudgeSystem_def)
  then have go: "shouldNudge 100000 a newNudgeSystem"
    by (simp add: shouldNudge_def one newNudgeSystem_def)
  have trimmed: "trim [] = []"
    by (simp add: trim_def)
  have "analyzeAndNudge 100000 newNudgeSystem (Some errorBatch) ''key'' (ContentText '' Silent '')
      = recordNudge 100000
          (emitNudge 100000 newNudgeSystem errorBatch a emptyResponseFallback) newNudgeSystem"
    by (simp add: analyzeAndNudge_def Let_def a_def [symmetric] same go generateNudge_def
        callPrisma_silent trimmed one)
  then show ?thesis
    by (simp add: recordNudge_def emitNudge_def pushNudge_def newNudgeSystem_def
        callPrisma_silent one [unfolded a_def])
qed

section \<open>The scheduler\<close>

lemma replay_step:
  "replay parseUrl p [] = p"
  "replay parseUrl p (a # activities) = replay parseUrl (react parseUrl p a) activities"
  by (simp_all add: replay_def)

lemma replay_append:
  "replay parseUrl p (xs @ ys) = replay parseUrl (replay parseUrl p xs) ys"
  by (simp add: replay_def)

lemma plain_lower: "toLowerCase ''x'' = ''x''"
  by code_simp

lemma plain_no_indicator: "\<not> includesSome ''x'' completionIndicators"
  by code_simp

lemma plain_no_urgent: "\<not> includesSome ''x'' urgentKeywords"
  by code_simp

lemma sliceLast_subset: "set (sliceLast n xs) \<subseteq> set xs"
  by (simp add: sliceLast_def set_drop_subset)

lemma remdups_constant:
  assumes "set xs \<subseteq> {u}"
  shows "length (remdups xs) \<le> 1"
proof -
  have "card (set xs) \<le> card {u}"
    using assms by (intro card_mono) simp_all
  then show ?thesis
    by (simp add: length_remdups_card_conv)
qed

lemma plainTyping_entry:
  "plainTyping p \<Longrightarrow> e \<in> set (rawCaptureData p) \<Longrightarrow> diff e = ''x'' \<and> url e = examplePage"
  by (simp add: plainTyping_def list_all_iff)

lemma plainTyping_not_urgent:
  assumes "plainTyping p"
  shows "\<not> hasUrgentSignals p"
proof -
  have "\<not> (diff e \<noteq> [] \<and> includesSome (toLowerCase (diff e)) urgentKeywords)"
    if "e \<in> set (sliceLast 3 (rawCaptureData p))" for e
  proof -
    from that have "e \<in> set (rawCaptureData p)"
      by (rule subsetD [OF sliceLast_subset])
    then have "diff e = ''x'' \<and> url e = examplePage"
      by (rule plainTyping_entry [OF assms])
    then have x: "diff e = ''x''"
      by (rule conjunct1)
    show ?thesis
      unfolding x plain_lower using plain_no_urgent by blast
  qed
  then have "filter (\<lambda>entry. diff entry \<noteq> [] \<and>
              includesSome (toLowerCase (diff entry)) urgentKeywords)
            (sliceLast 3 (rawCaptureData p)) = []"
    unfolding filter_empty_conv by blast
  then show ?thesis
    unfolding hasUrgentSignals_def by simp
qed

lemma plainTyping_no_break:
  assumes "plainTyping p"
  shows "\<not> detectNaturalBreak p"
proof (cases "length (rawCaptureData p) < 3")
  case True
  then show ?thesis by (simp add: detectNaturalBreak_def)
next
  case False
  define recent where "recent = sliceLast 5 (rawCaptureData p)"
  have sub: "set recent \<subseteq> set (rawCaptureData p)"
    unfolding recent_def by (rule sliceLast_subset)
  have "recent \<noteq> []"
    using False by (simp add: recent_def sliceLast_def)
  then have "last recent \<in> set recent"
    by (rule last_in_set)
  then have "last recent \<in> set (rawCaptureData p)"
    by (rule subsetD [OF sub])
  then have "diff (last recent) = ''x'' \<and> url (last recent) = examplePage"
    by (rule plainTyping_entry [OF assms])
  then have x: "diff (last recent) = ''x''"
    by (rule conjunct1)
  have noword: "\<not> (diff (last recent) \<noteq> [] \<and>
      includesSome (toLowerCase (diff (last recent))) completionIndicators)"
    unfolding x plain_lower using plain_no_indicator by blast
  have "u = examplePage" if "u \<in> set (map url recent)" for u
  proof -
    from that obtain e where e: "e \<in> set recent" and u: "u = url e"
      by auto
    from e have "e \<in> set (rawCaptureData p)"
      by (rule subsetD [OF sub])
    then have "diff e = ''x'' \<and> url e = examplePage"
      by (rule plainTyping_entry [OF assms])
    then show ?thesis
      unfolding u by (rule conjunct2)
  qed
  then have "set (filter (\<lambda>u. u \<noteq> []) (map url recent)) \<subseteq> {examplePage}"
    by auto
  then have "length (remdups (filter (\<lambda>u. u \<noteq> []) (map url recent))) \<le> 1"
    by (rule remdups_constant)
  with noword False show ?thesis
    unfolding detectNaturalBreak_def Let_def recent_def [symmetric] by simp
qed

lemma poll_idle:
  assumes "now - lastActivityTime p < thoughtCompleteThreshold"
    and "now - lastProcessTime p < minWaitTime \<or> plainTyping p"
  shows "pollTick parseUrl now p = (p, None)"
proof -
  have "shouldProcessBatch now p = None"
    using assms plainTyping_no_break [of p] plainTyping_not_urgent [of p]
    by (auto simp: shouldProcessBatch_def Let_def thoughtCompleteThreshold_def
        maxWaitTime_def)
  then show ?thesis
    by (simp add: pollTick_def)
qed

lemma poll_processes:
  assumes "\<not> isProcessing p" and "rawCaptureData p \<noteq> []"
    and "now - lastActivityTime p \<ge> maxWaitTime \<or>
         (now - lastProcessTime p \<ge> minWaitTime \<and>
          now - lastActivityTime p \<ge> thoughtCompleteThreshold)"
  shows "pollTick parseUrl now p = processBatch parseUrl now p"
  using assms
  by (auto simp: pollTick_def shouldProcessBatch_def Let_def)

lemma firstSeal_state:
  "replay exampleParser newTandemProcessor firstSeal =
     \<lparr>rawCaptureData = [(keystroke ''01'' 1000000)\<lparr>receivedAt := 1000000\<rparr>],
      structuredBatches =
        pushBatch (sealedBatch exampleParser 1010000
                     [(keystroke ''01'' 1000000)\<lparr>receivedAt := 1000000\<rparr>]) [],
      lastProcessTime = 1010000, lastActivityTime = 1000000, isProcessing = False\<rparr>"
proof -
  let ?p1 = "\<lparr>rawCaptureData = [(keystroke ''01'' 1000000)\<lparr>receivedAt := 1000000\<rparr>],
      structuredBatches = [], lastProcessTime = 0, lastActivityTime = 1000000,
      isProcessing = False\<rparr>"
  have one: "addCaptureData 1000000 (keystroke ''01'' 1000000) newTandemProcessor = ?p1"
    by (simp add: addCaptureData_def newTandemProcessor_def keystroke_def)
  have two: "pollTick exampleParser 1005000 ?p1 = (?p1, None)"
    by (rule poll_idle)
      (simp_all add: thoughtCompleteThreshold_def plainTyping_def keystroke_def)
  have "pollTick exampleParser 1010000 ?p1 = processBatch exampleParser 1010000 ?p1"
    by (rule poll_processes)
      (simp_all add: thoughtCompleteThreshold_def minWaitTime_def)
  then have three: "fst (pollTick exampleParser 1010000 ?p1) =
      ?p1\<lparr>structuredBatches :=
             pushBatch (sealedBatch exampleParser 1010000
                          [(keystroke ''01'' 1000000)\<lparr>receivedAt := 1000000\<rparr>]) [],
           lastProcessTime := 1010000\<rparr>"
    by (simp add: processBatch_def batchData_def keystroke_def)
  show ?thesis
    by (simp add: firstSeal_def replay_step one two three)
qed


lemma beforeLatePoll_state:
  "beforeLatePoll =
     \<lparr>rawCaptureData =
        [(keystroke ''03'' 1020000)\<lparr>receivedAt := 1020000\<rparr>,
         (keystroke ''04'' 1029000)\<lparr>receivedAt := 1029000\<rparr>,
         (keystroke ''05'' 1038000)\<lparr>receivedAt := 1038000\<rparr>,
         (keystroke ''06'' 1047000)\<lparr>receivedAt := 1047000\<rparr>,
         (keystroke ''07'' 1056000)\<lparr>receivedAt := 1056000\<rparr>,
         (keystroke ''08'' 1065000)\<lparr>receivedAt := 1065000\<rparr>,
         (keystroke ''09'' 1074000)\<lparr>receivedAt := 1074000\<rparr>,
         (keystroke ''10'' 1083000)\<lparr>receivedAt := 1083000\<rparr>,
         (keystroke ''11'' 1092000)\<lparr>receivedAt := 1092000\<rparr>,
         (keystroke ''12'' 1101000)\<lparr>receivedAt := 1101000\<rparr>,
         (keystroke ''13'' 1110000)\<lparr>receivedAt := 1110000\<rparr>,
         (keystroke ''14'' 1119000)\<lparr>receivedAt := 1119000\<rparr>,
         (keystroke ''15'' 1128000)\<lparr>receivedAt := 1128000\<rparr>,
         (keystroke ''16'' 1137000)\<lparr>receivedAt := 1137000\<rparr>],
      structuredBatches =
        pushBatch (sealedBatch exampleParser 1010000
                     [(keystroke ''01'' 1000000)\<lparr>receivedAt := 1000000\<rparr>]) [],
      lastProcessTime = 1010000, lastActivityTime = 1137000, isProcessing = False\<rparr>"
  unfolding beforeLatePoll_def replay_append firstSeal_state typingBurst_def
  by (simp add: replay_step poll_idle addCaptureData_def keystroke_def plainTyping_def
      thoughtCompleteThreshold_def minWaitTime_def)


lemma idle_processBatch: "\<not> isProcessing (fst (processBatch parseUrl now p))"
  by (simp add: processBatch_def)

lemma idle_react: "\<not> isProcessing p \<Longrightarrow> \<not> isProcessing (react parseUrl p a)"
proof (cases a)
  case (Capture now e)
  assume "\<not> isProcessing p"
  with Capture show ?thesis by (simp add: addCaptureData_def)
next
  case (Poll now)
  assume "\<not> isProcessing p"
  with Poll idle_processBatch [of parseUrl now p] show ?thesis
    by (simp add: pollTick_def split: option.splits)
next
  case (ForceBatch now)
  assume "\<not> isProcessing p"
  with ForceBatch idle_processBatch [of parseUrl now "p\<lparr>lastProcessTime := 0\<rparr>"] show ?thesis
    by (simp add: forceProcessBatch_def Let_def)
qed

lemma idle_replay:
  "\<not> isProcessing p \<Longrightarrow> \<not> isProcessing (replay parseUrl p activities)"
proof (induction activities arbitrary: p)
  case Nil
  then show ?case by (simp add: replay_step)
next
  case (Cons a activities)
  then show ?case using idle_react [of p parseUrl a] by (simp add: replay_step)
qed

lemma processBatch_seals:
  "batchData p \<noteq> [] \<Longrightarrow>
   processBatch parseUrl now p =
     (p\<lparr>structuredBatches :=
          pushBatch (sealedBatch parseUrl now (batchData p)) (structuredBatches p),
        lastProcessTime := now, isProcessing := False\<rparr>,
      Some (sealedBatch parseUrl now (batchData p)))"
  by (simp add: processBatch_def)

lemma batchData_buffered: "batchData p \<noteq> [] \<Longrightarrow> rawCaptureData p \<noteq> []"
  by (auto simp: batchData_def)

lemma beforeLatePoll_batchData:
  "batchData beforeLatePoll = rawCaptureData beforeLatePoll"
  "length (rawCaptureData beforeLatePoll) = 14"
  "(keystroke ''02'' 1011000)\<lparr>receivedAt := 1011000\<rparr> \<notin> set (rawCaptureData beforeLatePoll)"
  by (simp_all add: beforeLatePoll_state batchData_def keystroke_def)

section \<open>The manual trigger of the processor\<close>

lemma force_frame:
  "lastProcessTime (fst (forceProcessBatch parseUrl now p)) = lastProcessTime p"
  "rawCaptureData (fst (forceProcessBatch parseUrl now p)) = rawCaptureData p"
  by (simp_all add: forceProcessBatch_def Let_def processBatch_def)

lemma force_seals:
  assumes "rawCaptureData p \<noteq> []" and "batchData (p\<lparr>lastProcessTime := 0\<rparr>) \<noteq> []"
  shows "snd (forceProcessBatch parseUrl now p)
           = Some (sealedBatch parseUrl now (batchData (p\<lparr>lastProcessTime := 0\<rparr>)))"
  using assms by (simp add: forceProcessBatch_def Let_def processBatch_def)

lemma react_keeps_seal_time:
  assumes "case a of Poll now \<Rightarrow> snd (pollTick parseUrl now p) = None | _ \<Rightarrow> True"
  shows "lastProcessTime (react parseUrl p a) = lastProcessTime p"
proof (cases a)
  case (Capture now e)
  then show ?thesis by (simp add: addCaptureData_def)
next
  case (Poll now)
  with assms have "snd (pollTick parseUrl now p) = None" by simp
  then have "lastProcessTime (fst (pollTick parseUrl now p)) = lastProcessTime p"
    by (auto simp: pollTick_def processBatch_def split: option.splits if_splits)
  with Poll show ?thesis by simp
next
  case (ForceBatch now)
  then show ?thesis by (simp add: force_frame)
qed

lemma withoutSeal_keeps_seal_time:
  "withoutSeal parseUrl p activities \<Longrightarrow>
   lastProcessTime (replay parseUrl p activities) = lastProcessTime p"
proof (induction activities arbitrary: p)
  case Nil
  then show ?case by (simp add: replay_step)
next
  case (Cons a activities)
  then show ?case
    using react_keeps_seal_time [where a = a and p = p and parseUrl = parseUrl] by (simp add: replay_step)
qed

lemma poll_result:
  "snd (pollTick parseUrl now p) = Some b \<Longrightarrow> b = sealedBatch parseUrl now (batchData p)"
  by (auto simp: pollTick_def processBatch_def split: option.splits if_splits)

text \<open>
  Claim C10, as amended. \<open>forceProcessBatch\<close> leaves \<open>lastProcessTime\<close> as it found it.
  Hence an entry of the forced batch that was received after the last automatic seal, and
  is still in the buffer when the timer next seals a batch, is in that batch as well.
\<close>

theorem forced_entries_sealed_again:
  assumes "withoutSeal parseUrl (fst (forceProcessBatch parseUrl now p)) between"
    and "q = replay parseUrl (fst (forceProcessBatch parseUrl now p)) between"
    and "snd (pollTick parseUrl later q) = Some b"
    and "e \<in> set (batchData (p\<lparr>lastProcessTime := 0\<rparr>))"
    and "receivedAt e > lastProcessTime p"
    and "e \<in> set (rawCaptureData q)"
  shows "lastProcessTime (fst (forceProcessBatch parseUrl now p)) = lastProcessTime p \<and>
         b = sealedBatch parseUrl later (batchData q) \<and>
         e \<in> set (batchData q)"
proof -
  have "lastProcessTime q = lastProcessTime p"
    unfolding assms(2) using withoutSeal_keeps_seal_time [OF assms(1)]
    by (simp add: force_frame)
  with assms(5) assms(6) have "e \<in> set (batchData q)"
    by (simp add: batchData_def)
  with poll_result [OF assms(3)] show ?thesis
    by (simp add: force_frame)
qed

lemma beforeManualTrigger_state:
  "beforeManualTrigger =
     \<lparr>rawCaptureData =
        [(keystroke ''01'' 1000000)\<lparr>receivedAt := 1000000\<rparr>,
         (keystroke ''02'' 1020000)\<lparr>receivedAt := 1020000\<rparr>],
      structuredBatches =
        pushBatch (sealedBatch exampleParser 1010000
                     [(keystroke ''01'' 1000000)\<lparr>receivedAt := 1000000\<rparr>]) [],
      lastProcessTime = 1010000, lastActivityTime = 1020000, isProcessing = False\<rparr>"
  unfolding beforeManualTrigger_def replay_append firstSeal_state
  by (simp add: replay_step addCaptureData_def keystroke_def)

lemma afterManualTrigger_facts:
  "lastProcessTime afterManualTrigger = 1010000"
  "lastActivityTime afterManualTrigger = 1020000"
  "\<not> isProcessing afterManualTrigger"
  "rawCaptureData afterManualTrigger =
     [(keystroke ''01'' 1000000)\<lparr>receivedAt := 1000000\<rparr>,
      (keystroke ''02'' 1020000)\<lparr>receivedAt := 1020000\<rparr>]"
  by (simp_all add: afterManualTrigger_def forceProcessBatch_def Let_def processBatch_def
      beforeManualTrigger_state)

lemma afterManualTrigger_plain: "plainTyping afterManualTrigger"
  by (simp add: plainTyping_def afterManualTrigger_facts keystroke_def)

lemma afterManualTrigger_batchData:
  "batchData afterManualTrigger = [(keystroke ''02'' 1020000)\<lparr>receivedAt := 1020000\<rparr>]"
  by (simp add: batchData_def afterManualTrigger_facts keystroke_def)

lemma forced_batchData:
  "batchData (beforeManualTrigger\<lparr>lastProcessTime := 0\<rparr>) =
     [(keystroke ''01'' 1000000)\<lparr>receivedAt := 1000000\<rparr>,
      (keystroke ''02'' 1020000)\<lparr>receivedAt := 1020000\<rparr>]"
  by (simp add: batchData_def beforeManualTrigger_state keystroke_def)

lemma afterManualTrigger_idle_poll:
  "pollTick exampleParser 1025000 afterManualTrigger = (afterManualTrigger, None)"
  by (rule poll_idle)
    (simp_all add: afterManualTrigger_facts afterManualTrigger_plain thoughtCompleteThreshold_def)

lemma afterManualTrigger_next_seal:
  "snd (pollTick exampleParser 1030000 afterManualTrigger)
     = Some (sealedBatch exampleParser 1030000 (batchData afterManualTrigger))"
proof -
  have "pollTick exampleParser 1030000 afterManualTrigger
      = processBatch exampleParser 1030000 afterManualTrigger"
    by (rule poll_processes)
      (simp_all add: afterManualTrigger_facts thoughtCompleteThreshold_def minWaitTime_def)
  then show ?thesis
    by (simp add: processBatch_seals afterManualTrigger_batchData)
qed

theorem forced_entries_sealed_again_witness:
  "lastProcessTime (fst (forceProcessBatch exampleParser 1021000 beforeManualTrigger))
     = lastProcessTime beforeManualTrigger \<and>
   (keystroke ''02'' 1020000)\<lparr>receivedAt := 1020000\<rparr>
     \<in> set (batchData (beforeManualTrigger\<lparr>lastProcessTime := 0\<rparr>)) \<and>
   (keystroke ''02'' 1020000)\<lparr>receivedAt := 1020000\<rparr>
     \<in> set (batchData
          (replay exampleParser (fst (forceProcessBatch exampleParser 1021000 beforeManualTrigger))
             [Poll 1025000]))"
proof -
  let ?p' = "fst (forceProcessBatch exampleParser 1021000 beforeManualTrigger)"
  let ?e = "(keystroke ''02'' 1020000)\<lparr>receivedAt := 1020000\<rparr>"
  have p': "?p' = afterManualTrigger"
    by (simp add: afterManualTrigger_def)
  have q: "replay exampleParser ?p' [Poll 1025000] = afterManualTrigger"
    by (simp add: p' replay_step afterManualTrigger_idle_poll)
  have quiet: "withoutSeal exampleParser ?p' [Poll 1025000]"
    by (simp add: p' afterManualTrigger_idle_poll)
  have sealed: "snd (pollTick exampleParser 1030000 (replay exampleParser ?p' [Poll 1025000]))
      = Some (sealedBatch exampleParser 1030000 (batchData afterManualTrigger))"
    by (simp only: q afterManualTrigger_next_seal)
  have forced: "?e \<in> set (batchData (beforeManualTrigger\<lparr>lastProcessTime := 0\<rparr>))"
    by (simp add: forced_batchData)
  have after: "receivedAt ?e > lastProcessTime beforeManualTrigger"
    by (simp add: beforeManualTrigger_state)
  have buffered: "?e \<in> set (rawCaptureData (replay exampleParser ?p' [Poll 1025000]))"
    by (simp only: q afterManualTrigger_facts) simp
  from forced_entries_sealed_again [OF quiet refl sealed forced after buffered] forced
  show ?thesis by simp
qed

theorem forced_entries_counterexample:
  "(keystroke ''01'' 1000000)\<lparr>receivedAt := 1000000\<rparr>
     \<in> set (batchData (beforeManualTrigger\<lparr>lastProcessTime := 0\<rparr>)) \<and>
   snd (forceProcessBatch exampleParser 1021000 beforeManualTrigger)
     = Some (sealedBatch exampleParser 1021000
               (batchData (beforeManualTrigger\<lparr>lastProcessTime := 0\<rparr>))) \<and>
   snd (pollTick exampleParser 1025000 afterManualTrigger) = None \<and>
   (keystroke ''01'' 1000000)\<lparr>receivedAt := 1000000\<rparr>
     \<in> set (rawCaptureData afterManualTrigger) \<and>
   snd (pollTick exampleParser 1030000 afterManualTrigger)
     = Some (sealedBatch exampleParser 1030000 (batchData afterManualTrigger)) \<and>
   (keystroke ''01'' 1000000)\<lparr>receivedAt := 1000000\<rparr>
     \<notin> set (batchData afterManualTrigger)"
proof -
  have "snd (forceProcessBatch exampleParser 1021000 beforeManualTrigger)
     = Some (sealedBatch exampleParser 1021000
               (batchData (beforeManualTrigger\<lparr>lastProcessTime := 0\<rparr>)))"
    by (rule force_seals) (simp_all add: forced_batchData, simp add: beforeManualTrigger_state)
  then show ?thesis
    by (simp add: forced_batchData afterManualTrigger_idle_poll afterManualTrigger_facts
        afterManualTrigger_next_seal afterManualTrigger_batchData keystroke_def)
qed

section \<open>What the composer hands to the analyzer\<close>

lemma includes_single: "includes_str t [c] \<longleftrightarrow> c \<in> set t"
  by (induction t) auto

lemma includes_trans: "includes_str t p \<Longrightarrow> includes_str p q \<Longrightarrow> includes_str t q"
  unfolding includes_sublist by (rule sublist_order.order.trans [rotated])

lemma composeEntry_extends: "\<exists>suffix. fst (composeEntry e acc) = fst acc @ suffix"
  by (simp add: composeEntry_def Let_def split: option.splits)

lemma fold_composeEntry_extends:
  "\<exists>suffix. fst (fold composeEntry es acc) = fst acc @ suffix"
proof (induction es arbitrary: acc)
  case Nil
  then show ?case by simp
next
  case (Cons e es)
  obtain s1 where s1: "fst (composeEntry e acc) = fst acc @ s1"
    using composeEntry_extends by blast
  obtain s2 where "fst (fold composeEntry es (composeEntry e acc))
      = fst (composeEntry e acc) @ s2"
    using Cons.IH by blast
  with s1 show ?case by simp
qed

lemma batch_begins_with_header:
  "\<exists>rest. createStructuredBatch parseUrl now es = batchHeader now es @ rest"
proof -
  obtain suffix where
    "fst (fold composeEntry (sort_key capturedAt es) (batchHeader now es, None))
       = batchHeader now es @ suffix"
    using fold_composeEntry_extends [of "sort_key capturedAt es" "(batchHeader now es, None)"]
    by auto
  then show ?thesis
    by (simp add: createStructuredBatch_def Let_def)
qed

lemma batch_has_equals: "CHR ''='' \<in> set (createStructuredBatch parseUrl now es)"
proof -
  obtain rest where "createStructuredBatch parseUrl now es = batchHeader now es @ rest"
    using batch_begins_with_header by blast
  then show ?thesis
    by (simp add: batchHeader_def)
qed

lemma equals_is_math:
  assumes "CHR ''='' \<in> set t"
  shows "hasMathContent (detectMathematicalContent t)"
proof -
  have "hasMathSymbols t"
    using assms by (auto simp: hasMathSymbols_def list_ex_iff mathSymbolChars_def)
  then show ?thesis
    by (simp add: detectMathematicalContent_def)
qed

lemma equals_is_completion:
  assumes "CHR ''='' \<in> set t"
  shows "includesSome (toLowerCase t) completionKeywords"
proof -
  have "toLowerChar (CHR ''='') = CHR ''=''"
    by code_simp
  then have "CHR ''='' \<in> set (toLowerCase t)"
    using assms by (force simp: toLowerCase_def)
  then have "includes_str (toLowerCase t) ''=''"
    by (simp only: includes_single)
  then show ?thesis
    by (simp add: includesSome_def completionKeywords_def)
qed

lemma math_cooldown:
  assumes "hasMathematicalContent (patterns a)" and "concerningSignals a > 0"
  shows "cooldown a s = 8000"
  using assms
  by (auto simp: cooldown_def tableCooldown_def nudgeCooldowns_def Let_def)

text \<open>
  Claim C9. Whatever entries a batch is composed of, its text contains the character
  \<open>=\<close> (from the attributes of the opening \<open>batch\<close> tag), so the analysis of every
  composed batch has \<open>hasMathematicalContent\<close> and \<open>hasCompletionSignals\<close> set; and once
  such a batch has any concerning signal, the cooldown of \<open>shouldNudge\<close> is the eight
  seconds of the mathematical cap, at every level.
\<close>

theorem composed_batch_is_mathematical:
  "includes_str (createStructuredBatch parseUrl now es) ''='' \<and>
   hasMathematicalContent (patterns (analyzeStructuredText (createStructuredBatch parseUrl now es))) \<and>
   hasCompletionSignals (patterns (analyzeStructuredText (createStructuredBatch parseUrl now es))) \<and>
   (concerningSignals (analyzeStructuredText (createStructuredBatch parseUrl now es)) > 0 \<longrightarrow>
      cooldown (analyzeStructuredText (createStructuredBatch parseUrl now es)) s = 8000 \<and>
      shouldNudge later (analyzeStructuredText (createStructuredBatch parseUrl now es)) s
        = (later - lastNudgeTime s > 8000))"
proof -
  define a where "a = analyzeStructuredText (createStructuredBatch parseUrl now es)"
  have eq: "CHR ''='' \<in> set (createStructuredBatch parseUrl now es)"
    by (rule batch_has_equals)
  have math: "hasMathematicalContent (patterns a)"
    unfolding a_def hasMathematicalContent_analyze using eq by (rule equals_is_math)
  have completion: "hasCompletionSignals (patterns a)"
    unfolding a_def hasCompletionSignals_analyze using eq by (rule equals_is_completion)
  have "cooldown a s = 8000 \<and> shouldNudge later a s = (later - lastNudgeTime s > 8000)"
    if "concerningSignals a > 0"
    using math_cooldown [OF math that, of s] that by (simp add: shouldNudge_def)
  with eq math completion show ?thesis
    unfolding a_def [symmetric] by (simp add: includes_single)
qed

lemma stuckEntry_processed:
  "processDiff (diff stuckEntry) (fullText stuckEntry) =
     ''<mathematical_content><error_signal>stuck</error_signal></mathematical_content>''"
  by code_simp

lemma stuckEntry_visible: "trim (processDiff (diff stuckEntry) (fullText stuckEntry)) \<noteq> []"
  unfolding stuckEntry_processed by code_simp

lemma stuckEntry_tagged:
  "includes_str (processDiff (diff stuckEntry) (fullText stuckEntry)) ''<error_signal>''"
  unfolding stuckEntry_processed by code_simp

lemma single_entry_batch:
  assumes "trim (processDiff (diff e) (fullText e)) \<noteq> []"
  shows "includes_str (createStructuredBatch parseUrl now [e])
           (processDiff (diff e) (fullText e))"
proof -
  define pd where "pd = processDiff (diff e) (fullText e)"
  define pre where
    \<open>pre = batchHeader now [e] @ ''<change timestamp="'' @ entryTimestamp e @ ''">'' @ newline\<close>
  define post where
    "post = newline @ ''</change>'' @ newline @ contextTag parseUrl [e]
       @ analyzeBehaviorPatterns [e] @ ''</batch>''"
  have "fst (composeEntry e (batchHeader now [e], None)) = pre @ pd @ newline
      @ ''</change>'' @ newline"
    using assms by (simp add: composeEntry_def Let_def pd_def pre_def)
  then have "createStructuredBatch parseUrl now [e] = pre @ pd @ post"
    by (simp add: createStructuredBatch_def Let_def post_def)
  then show ?thesis
    unfolding pd_def [symmetric] by (simp only: includes_sublist sublist_appendI)
qed

lemma stuckEntry_batch_tagged:
  "includes_str (createStructuredBatch exampleParser 1010000 [stuckEntry]) ''<error_signal>''"
  using single_entry_batch [OF stuckEntry_visible] stuckEntry_tagged
  by (rule includes_trans)

lemma error_tag_scores: "includes_str t ''<error_signal>'' \<Longrightarrow> 0 < score t"
  by (simp add: score_def)

theorem composed_batch_is_mathematical_witness:
  "concerningSignals
     (analyzeStructuredText (createStructuredBatch exampleParser 1010000 [stuckEntry])) > 0 \<and>
   cooldown (analyzeStructuredText (createStructuredBatch exampleParser 1010000 [stuckEntry]))
     (newNudgeSystem\<lparr>interferenceLevel := 3\<rparr>) = 8000 \<and>
   shouldNudge 9000
     (analyzeStructuredText (createStructuredBatch exampleParser 1010000 [stuckEntry]))
     (newNudgeSystem\<lparr>interferenceLevel := 3\<rparr>)"
proof -
  have "concerningSignals
     (analyzeStructuredText (createStructuredBatch exampleParser 1010000 [stuckEntry])) > 0"
    unfolding concerningSignals_score using stuckEntry_batch_tagged by (rule error_tag_scores)
  then show ?thesis
    using composed_batch_is_mathematical [of exampleParser 1010000 "[stuckEntry]"
        "newNudgeSystem\<lparr>interferenceLevel := 3\<rparr>" 9000]
    by (simp add: newNudgeSystem_def)
qed

section \<open>Sessions: the level and the time of the last automatic nudge\<close>

lemma lastNudgeTime_update: "lastNudgeTime (updateInterferenceLevel now a s) = lastNudgeTime s"
  by (simp add: updateInterferenceLevel_def escalate_def decay_def)

lemma generateNudge_none:
  "snd (generateNudge now s b a reply) = None \<Longrightarrow> fst (generateNudge now s b a reply) = s"
  by (auto simp: generateNudge_def Let_def recordNudge_def split: sum.splits if_splits)

lemma lastNudgeTime_analyzeAndNudge:
  "lastNudgeTime (fst (analyzeAndNudge now s sb apiKey reply)) =
     (case snd (analyzeAndNudge now s sb apiKey reply) of
        None \<Rightarrow> lastNudgeTime s
      | Some n \<Rightarrow> nudgeTimestamp n)"
proof (cases "snd (analyzeAndNudge now s sb apiKey reply)")
  case None
  show ?thesis
  proof (cases sb)
    case no_batch: None
    then show ?thesis by (simp add: analyzeAndNudge_def)
  next
    case (Some b)
    define a where "a = analyzeStructuredText (structuredText b)"
    show ?thesis
    proof (cases "apiKey \<noteq> [] \<and> shouldNudge now a (updateInterferenceLevel now a s)")
      case True
      with None Some have "snd (generateNudge now (updateInterferenceLevel now a s) b a reply) = None"
        by (simp add: analyzeAndNudge_def Let_def a_def)
      from generateNudge_none [OF this] True Some None show ?thesis
        by (simp add: analyzeAndNudge_def Let_def a_def [symmetric] lastNudgeTime_update)
    next
      case False
      with Some show ?thesis
        by (auto simp: analyzeAndNudge_def Let_def a_def [symmetric] lastNudgeTime_update)
    qed
  qed
next
  case (Some n)
  then have "analyzeAndNudge now s sb apiKey reply
      = (fst (analyzeAndNudge now s sb apiKey reply), Some n)"
    by (simp add: prod_eq_iff)
  from analyzeAndNudge_result [OF this] Some show ?thesis by simp
qed





lemma session_snoc: "session (ops @ [op]) = perform (session ops) op"
  by (simp add: session_def)

lemma failed_call_no_nudge: "snd (analyzeAndNudge now s sb apiKey NoContent) = None"
  by (simp add: analyzeAndNudge_def generateNudge_def callPrisma_def Let_def
      split: option.splits)

lemma failed_call_keeps_time:
  "lastNudgeTime (fst (analyzeAndNudge now s sb apiKey NoContent)) = lastNudgeTime s"
  by (simp add: lastNudgeTime_analyzeAndNudge failed_call_no_nudge)

lemma forced_on_fresh_at:
  "forceAnalyzeAndNudge now newNudgeSystem (Some quietBatch) ''key'' (ContentText ''Try again'')
   = (\<lparr>nudgeHistory =
         [\<lparr>nudgeId = ''forced_nudge_'' @ showInt now, nudgeTimestamp = now, nudgeLevel = 1,
           nudgeText = ''Try again'',
           nudgeAnalysis = analyzeStructuredText (structuredText quietBatch),
           nudgeBatchId = batchId quietBatch, forced = True, manualTrigger = True\<rparr>],
       interferenceLevel = 1, lastNudgeTime = 0\<rparr>,
      Some \<lparr>nudgeId = ''forced_nudge_'' @ showInt now, nudgeTimestamp = now, nudgeLevel = 1,
            nudgeText = ''Try again'',
            nudgeAnalysis = analyzeStructuredText (structuredText quietBatch),
            nudgeBatchId = batchId quietBatch, forced = True, manualTrigger = True\<rparr>)"
  by (simp add: forceAnalyzeAndNudge_def Let_def newNudgeSystem_def generateForcedNudge_def
      callPrisma_plain recordNudge_def pushNudge_def markManual_def)

lemma errorBatch_signals:
  "concerningSignals (analyzeStructuredText (structuredText errorBatch)) = 1"
  by (simp add: concerningSignals_score errorBatch_score)

text \<open>The states the moving session goes through.\<close>

lemma movingSession_first:
  "interferenceLevel (session [manualOnQuiet]) = 1"
  "lastNudgeTime (session [manualOnQuiet]) = 0"
  by (simp_all add: manualOnQuiet_def session_def forced_on_fresh_at)

lemma movingSession_second:
  "interferenceLevel (session [manualOnQuiet, analysisOfB]) = 2"
  "lastNudgeTime (session [manualOnQuiet, analysisOfB]) = 0"
proof -
  have step: "session [manualOnQuiet, analysisOfB] = perform (session [manualOnQuiet]) analysisOfB"
    by (simp add: session_def)
  have b: "concerningSignals (analyzeStructuredText scenarioBText) = 5"
    by (simp add: concerningSignals_score scenarioBText_score)
  show "interferenceLevel (session [manualOnQuiet, analysisOfB]) = 2"
    unfolding step
    by (simp add: analysisOfB_def level_analyzeAndNudge scenarioBBatch_def
        updateInterferenceLevel_def
        escalate_def decay_def b toLevel1_def toLevel2_def toLevel3_def movingSession_first)
  show "lastNudgeTime (session [manualOnQuiet, analysisOfB]) = 0"
    unfolding step
    by (simp add: analysisOfB_def failed_call_keeps_time movingSession_first)
qed

lemma movingSession_third:
  "interferenceLevel (session [manualOnQuiet, analysisOfB, analysisOfC]) = 1"
  "lastNudgeTime (session [manualOnQuiet, analysisOfB, analysisOfC]) = 0"
proof -
  have step: "session [manualOnQuiet, analysisOfB, analysisOfC]
      = perform (session [manualOnQuiet, analysisOfB]) analysisOfC"
    by (simp add: session_def)
  have c: "concerningSignals (analyzeStructuredText scenarioCText) = 0"
    by (simp add: concerningSignals_score scenarioCText_score)
  show "interferenceLevel (session [manualOnQuiet, analysisOfB, analysisOfC]) = 1"
    unfolding step
    by (simp add: analysisOfC_def level_analyzeAndNudge scenarioCBatch_def
        updateInterferenceLevel_def
        scenarioCText_success c movingSession_second)
  show "lastNudgeTime (session [manualOnQuiet, analysisOfB, analysisOfC]) = 0"
    unfolding step
    by (simp add: analysisOfC_def failed_call_keeps_time movingSession_second)
qed

lemma movingSession_last:
  "interferenceLevel (session movingSession) = 0"
proof -
  have step: "session movingSession
      = perform (session [manualOnQuiet, analysisOfB, analysisOfC]) analysisOfError"
    by (simp add: session_def movingSession_def)
  show ?thesis
    unfolding step
    by (simp add: analysisOfError_def level_analyzeAndNudge updateInterferenceLevel_def
        escalate_def decay_def
        errorBatch_signals toLevel1_def toLevel2_def toLevel3_def movingSession_third)
qed

theorem level_bounds_witness:
  "interferenceLevel (session [manualOnQuiet]) = 1 \<and>
   interferenceLevel (session [manualOnQuiet, analysisOfB]) = 2 \<and>
   interferenceLevel (session [manualOnQuiet, analysisOfB, analysisOfC]) = 1 \<and>
   interferenceLevel (session movingSession) = 0 \<and>
   interferenceLevel (session [manualOnQuiet, analysisOfB]) \<in> {0, 1, 2, 3} \<and>
   interferenceLevel (session movingSession) \<in> {0, 1, 2, 3}"
  using level_bounds [of "[manualOnQuiet, analysisOfB]"] level_bounds [of movingSession]
    movingSession_first(1) movingSession_second(1) movingSession_third(1) movingSession_last
  by blast












section \<open>Activity sequences: what the time stamps of the processor stand for\<close>

lemma poll_sealed_time:
  "snd (pollTick parseUrl now p) \<noteq> None \<Longrightarrow> lastProcessTime (fst (pollTick parseUrl now p)) = now"
  by (auto simp: pollTick_def processBatch_def split: option.splits if_splits)

lemma poll_unsealed_time:
  "snd (pollTick parseUrl now p) = None \<Longrightarrow>
   lastProcessTime (fst (pollTick parseUrl now p)) = lastProcessTime p"
  by (auto simp: pollTick_def processBatch_def split: option.splits if_splits)

lemma lastProcessTime_replay:
  "lastProcessTime (replay parseUrl p activities)
     = lastAutomaticSeal parseUrl (lastProcessTime p) p activities"
proof (induction activities arbitrary: p)
  case Nil
  then show ?case by (simp add: replay_step)
next
  case (Cons a activities)
  show ?case
  proof (cases a)
    case (Capture now e)
    then show ?thesis
      using Cons [of "react parseUrl p a"] by (simp add: replay_step addCaptureData_def)
  next
    case (Poll now)
    then show ?thesis
      using Cons [of "react parseUrl p a"] poll_sealed_time [of parseUrl now p]
        poll_unsealed_time [of parseUrl now p]
      by (simp add: replay_step)
  next
    case (ForceBatch now)
    then show ?thesis
      using Cons [of "react parseUrl p a"] by (simp add: replay_step force_frame)
  qed
qed

lemma lastActivityTime_react:
  "lastActivityTime (react parseUrl p a)
     = (case a of Capture now e \<Rightarrow> now | _ \<Rightarrow> lastActivityTime p)"
  by (cases a)
    (simp_all add: addCaptureData_def pollTick_def processBatch_def forceProcessBatch_def
      Let_def split: option.splits)

lemma lastActivityTime_replay:
  "lastActivityTime (replay parseUrl p activities) = lastCapture (lastActivityTime p) activities"
proof (induction activities arbitrary: p)
  case Nil
  then show ?case by (simp add: replay_step)
next
  case (Cons a activities)
  then show ?case
    using Cons [of "react parseUrl p a"] by (simp add: replay_step lastActivityTime_react)
qed

text \<open>
  With a clock that does not run backwards, the last automatic seal is not later than the
  last seal of either kind.
\<close>

lemma automatic_seal_before_seal:
  "t1 \<le> t2 \<Longrightarrow> sorted (t2 # map clockOf activities) \<Longrightarrow>
   lastAutomaticSeal parseUrl t1 p activities \<le> lastSeal parseUrl t2 p activities"
proof (induction activities arbitrary: t1 t2 p)
  case Nil
  then show ?case by simp
next
  case (Cons a activities)
  from Cons.prems(2) have now: "t2 \<le> clockOf a"
    and rest: "sorted (clockOf a # map clockOf activities)"
    and skip: "sorted (t2 # map clockOf activities)"
    by auto
  show ?case
  proof (cases a)
    case (Capture now e)
    then show ?thesis
      using Cons.IH [OF Cons.prems(1) skip] by simp
  next
    case (Poll now)
    show ?thesis
    proof (cases "snd (pollTick parseUrl now p) = None")
      case True
      have "lastAutomaticSeal parseUrl t1 p (a # activities)
          = lastAutomaticSeal parseUrl t1 (react parseUrl p a) activities"
        and "lastSeal parseUrl t2 p (a # activities)
          = lastSeal parseUrl t2 (react parseUrl p a) activities"
        by (simp_all add: Poll True)
      then show ?thesis
        using Cons.IH [OF Cons.prems(1) skip] by simp
    next
      case False
      have "lastAutomaticSeal parseUrl t1 p (a # activities)
          = lastAutomaticSeal parseUrl now (react parseUrl p a) activities"
        and "lastSeal parseUrl t2 p (a # activities)
          = lastSeal parseUrl now (react parseUrl p a) activities"
        by (simp_all add: Poll False)
      moreover have "sorted (now # map clockOf activities)"
        using rest Poll by simp
      ultimately show ?thesis
        using Cons.IH [OF order_refl, of now] by simp
    qed
  next
    case (ForceBatch now)
    show ?thesis
    proof (cases "snd (forceProcessBatch parseUrl now p) = None")
      case True
      have "lastAutomaticSeal parseUrl t1 p (a # activities)
          = lastAutomaticSeal parseUrl t1 (react parseUrl p a) activities"
        and "lastSeal parseUrl t2 p (a # activities)
          = lastSeal parseUrl t2 (react parseUrl p a) activities"
        by (simp_all add: ForceBatch True)
      then show ?thesis
        using Cons.IH [OF Cons.prems(1) skip] by simp
    next
      case False
      have "lastAutomaticSeal parseUrl t1 p (a # activities)
          = lastAutomaticSeal parseUrl t1 (react parseUrl p a) activities"
        and "lastSeal parseUrl t2 p (a # activities)
          = lastSeal parseUrl now (react parseUrl p a) activities"
        by (simp_all add: ForceBatch False)
      moreover have "t1 \<le> now"
        using Cons.prems(1) now ForceBatch by simp
      moreover have "sorted (now # map clockOf activities)"
        using rest ForceBatch by simp
      ultimately show ?thesis
        using Cons.IH [of t1 now] by simp
    qed
  qed
qed

text \<open>
  Claim C3 (seal ceiling), as amended. Take any activity sequence from a new processor,
  and a poll at least 45 seconds after its last capture. If some entry still in the
  buffer was received at a clock reading later than that of the previous seal, the poll
  seals a batch, however little time has passed since that seal, and every entry that is
  still in the buffer and was received at a clock reading later than that of the previous
  seal is among the entries the batch is composed of. The previous seal is the last
  automatic one, whose clock reading \<open>lastProcessTime\<close> holds; with a clock that does not
  run backwards it may as well be the last seal of either kind, since a forced seal leaves
  \<open>lastProcessTime\<close> as it was.
\<close>

theorem seal_ceiling:
  assumes "p = replay parseUrl newTandemProcessor activities"
    and "now - lastCapture 0 activities \<ge> maxWaitTime"
    and "e0 \<in> set (rawCaptureData p)"
    and "receivedAt e0 > lastAutomaticSeal parseUrl 0 newTandemProcessor activities \<or>
         (sorted (0 # map clockOf activities) \<and>
          receivedAt e0 > lastSeal parseUrl 0 newTandemProcessor activities)"
  shows "snd (pollTick parseUrl now p) = Some (sealedBatch parseUrl now (batchData p)) \<and>
         lastProcessTime (fst (pollTick parseUrl now p)) = now \<and>
         rawEntryCount (sealedBatch parseUrl now (batchData p)) = length (batchData p) \<and>
         structuredText (sealedBatch parseUrl now (batchData p))
           = createStructuredBatch parseUrl now (batchData p) \<and>
         (\<forall>e \<in> set (rawCaptureData p).
            receivedAt e > lastAutomaticSeal parseUrl 0 newTandemProcessor activities
              \<longrightarrow> e \<in> set (batchData p)) \<and>
         (sorted (0 # map clockOf activities) \<longrightarrow>
            (\<forall>e \<in> set (rawCaptureData p).
               receivedAt e > lastSeal parseUrl 0 newTandemProcessor activities
                 \<longrightarrow> e \<in> set (batchData p)))"
proof -
  define auto where "auto = lastAutomaticSeal parseUrl 0 newTandemProcessor activities"
  define either where "either = lastSeal parseUrl 0 newTandemProcessor activities"
  have seal_time: "lastProcessTime p = auto"
    unfolding assms(1) auto_def lastProcessTime_replay by (simp add: newTandemProcessor_def)
  have capture_time: "lastActivityTime p = lastCapture 0 activities"
    unfolding assms(1) lastActivityTime_replay by (simp add: newTandemProcessor_def)
  have order: "auto \<le> either" if "sorted (0 # map clockOf activities)"
    unfolding auto_def either_def using order_refl that by (rule automatic_seal_before_seal)
  have "receivedAt e0 > auto"
    using assms(4) order unfolding auto_def [symmetric] either_def [symmetric] by auto
  with assms(3) have some: "batchData p \<noteq> []"
    by (auto simp: batchData_def seal_time filter_empty_conv)
  have "\<not> isProcessing p"
    unfolding assms(1) by (rule idle_replay) (simp add: newTandemProcessor_def)
  then have "pollTick parseUrl now p = processBatch parseUrl now p"
    using assms(2) batchData_buffered [OF some]
    by (intro poll_processes) (simp_all add: capture_time)
  then have sealed: "snd (pollTick parseUrl now p) = Some (sealedBatch parseUrl now (batchData p))"
    and stamped: "lastProcessTime (fst (pollTick parseUrl now p)) = now"
    by (simp_all add: processBatch_seals [OF some])
  have members: "e \<in> set (batchData p)" if "e \<in> set (rawCaptureData p)" "receivedAt e > auto" for e
    using that by (simp add: batchData_def seal_time)
  have members': "e \<in> set (batchData p)"
    if "sorted (0 # map clockOf activities)" "e \<in> set (rawCaptureData p)" "receivedAt e > either"
    for e
    using members [OF that(2)] order [OF that(1)] that(3) by simp
  from sealed stamped members members' show ?thesis
    unfolding auto_def [symmetric] either_def [symmetric] by (simp add: sealedBatch_def)
qed


lemma forcedThenCapture_state:
  "replay exampleParser newTandemProcessor forcedThenCapture =
     \<lparr>rawCaptureData =
        [(keystroke ''01'' 1000000)\<lparr>receivedAt := 1000000\<rparr>,
         (keystroke ''02'' 1002000)\<lparr>receivedAt := 1002000\<rparr>],
      structuredBatches =
        pushBatch (sealedBatch exampleParser 1001000
                     [(keystroke ''01'' 1000000)\<lparr>receivedAt := 1000000\<rparr>]) [],
      lastProcessTime = 0, lastActivityTime = 1002000, isProcessing = False\<rparr>"
  by (simp add: forcedThenCapture_def replay_step addCaptureData_def newTandemProcessor_def
      forceProcessBatch_def Let_def processBatch_def batchData_def keystroke_def)

lemma forcedThenCapture_sealed:
  "snd (forceProcessBatch exampleParser 1001000
          (addCaptureData 1000000 (keystroke ''01'' 1000000) newTandemProcessor)) \<noteq> None"
  by (simp add: addCaptureData_def newTandemProcessor_def forceProcessBatch_def Let_def
      processBatch_def batchData_def keystroke_def)

lemma forcedThenCapture_times:
  "lastSeal exampleParser 0 newTandemProcessor forcedThenCapture = 1001000"
  "lastCapture 0 forcedThenCapture = 1002000"
  "sorted (0 # map clockOf forcedThenCapture)"
  by (simp_all add: forcedThenCapture_def forcedThenCapture_sealed)

lemma forcedThenCapture_batchData:
  "batchData (replay exampleParser newTandemProcessor forcedThenCapture) =
     [(keystroke ''01'' 1000000)\<lparr>receivedAt := 1000000\<rparr>,
      (keystroke ''02'' 1002000)\<lparr>receivedAt := 1002000\<rparr>]"
  by (simp add: forcedThenCapture_state batchData_def keystroke_def)

lemma beforeLatePoll_times:
  "lastAutomaticSeal exampleParser 0 newTandemProcessor (firstSeal @ typingBurst) = 1010000"
  "lastCapture 0 (firstSeal @ typingBurst) = 1137000"
proof -
  have "lastProcessTime beforeLatePoll
      = lastAutomaticSeal exampleParser 0 newTandemProcessor (firstSeal @ typingBurst)"
    unfolding beforeLatePoll_def lastProcessTime_replay by (simp add: newTandemProcessor_def)
  then show "lastAutomaticSeal exampleParser 0 newTandemProcessor (firstSeal @ typingBurst)
      = 1010000"
    by (simp add: beforeLatePoll_state)
  have "lastActivityTime beforeLatePoll = lastCapture 0 (firstSeal @ typingBurst)"
    unfolding beforeLatePoll_def lastActivityTime_replay by (simp add: newTandemProcessor_def)
  then show "lastCapture 0 (firstSeal @ typingBurst) = 1137000"
    by (simp add: beforeLatePoll_state)
qed

theorem seal_ceiling_witness:
  "lastSeal exampleParser 0 newTandemProcessor forcedThenCapture = 1001000 \<and>
   snd (pollTick exampleParser 1047000 (replay exampleParser newTandemProcessor forcedThenCapture))
     = Some (sealedBatch exampleParser 1047000
               (batchData (replay exampleParser newTandemProcessor forcedThenCapture))) \<and>
   (keystroke ''02'' 1002000)\<lparr>receivedAt := 1002000\<rparr>
     \<in> set (batchData (replay exampleParser newTandemProcessor forcedThenCapture)) \<and>
   rawEntryCount (sealedBatch exampleParser 1047000
       (batchData (replay exampleParser newTandemProcessor forcedThenCapture))) = 2 \<and>
   snd (pollTick exampleParser 1182000 beforeLatePoll)
     = Some (sealedBatch exampleParser 1182000 (batchData beforeLatePoll)) \<and>
   lastProcessTime (fst (pollTick exampleParser 1182000 beforeLatePoll)) = 1182000 \<and>
   rawEntryCount (sealedBatch exampleParser 1182000 (batchData beforeLatePoll)) = 14"
proof -
  let ?e2 = "(keystroke ''02'' 1002000)\<lparr>receivedAt := 1002000\<rparr>"
  let ?e16 = "(keystroke ''16'' 1137000)\<lparr>receivedAt := 1137000\<rparr>"
  have late: "1047000 - lastCapture 0 forcedThenCapture \<ge> maxWaitTime"
    by (simp add: forcedThenCapture_times maxWaitTime_def)
  have buffered: "?e2 \<in> set (rawCaptureData (replay exampleParser newTandemProcessor
      forcedThenCapture))"
    by (simp add: forcedThenCapture_state)
  have after: "receivedAt ?e2 > lastAutomaticSeal exampleParser 0 newTandemProcessor
        forcedThenCapture \<or>
      (sorted (0 # map clockOf forcedThenCapture) \<and>
       receivedAt ?e2 > lastSeal exampleParser 0 newTandemProcessor forcedThenCapture)"
    by (simp only: forcedThenCapture_times) simp
  have late': "1182000 - lastCapture 0 (firstSeal @ typingBurst) \<ge> maxWaitTime"
    by (simp add: beforeLatePoll_times maxWaitTime_def)
  have buffered': "?e16 \<in> set (rawCaptureData beforeLatePoll)"
    by (simp add: beforeLatePoll_state)
  have after': "receivedAt ?e16 > lastAutomaticSeal exampleParser 0 newTandemProcessor
        (firstSeal @ typingBurst) \<or>
      (sorted (0 # map clockOf (firstSeal @ typingBurst)) \<and>
       receivedAt ?e16 > lastSeal exampleParser 0 newTandemProcessor (firstSeal @ typingBurst))"
    by (simp add: beforeLatePoll_times)
  from seal_ceiling [OF refl late buffered after]
    seal_ceiling [OF beforeLatePoll_def late' buffered' after']
  show ?thesis
    by (simp add: forcedThenCapture_times forcedThenCapture_batchData beforeLatePoll_batchData)
qed

lemma captureAtSealTime_state:
  "replay exampleParser newTandemProcessor captureAtSealTime =
     \<lparr>rawCaptureData =
        [(keystroke ''01'' 1000000)\<lparr>receivedAt := 1000000\<rparr>,
         (keystroke ''02'' 1010000)\<lparr>receivedAt := 1010000\<rparr>],
      structuredBatches =
        pushBatch (sealedBatch exampleParser 1010000
                     [(keystroke ''01'' 1000000)\<lparr>receivedAt := 1000000\<rparr>]) [],
      lastProcessTime = 1010000, lastActivityTime = 1010000, isProcessing = False\<rparr>"
  unfolding captureAtSealTime_def replay_append firstSeal_state
  by (simp add: replay_step addCaptureData_def keystroke_def)

lemma captureAtSealTime_poll:
  "snd (pollTick exampleParser 1060000
          (replay exampleParser newTandemProcessor captureAtSealTime)) = None"
proof -
  have "pollTick exampleParser 1060000 (replay exampleParser newTandemProcessor captureAtSealTime)
      = processBatch exampleParser 1060000
          (replay exampleParser newTandemProcessor captureAtSealTime)"
    by (rule poll_processes) (simp_all add: captureAtSealTime_state maxWaitTime_def)
  then show ?thesis
    by (simp add: processBatch_def batchData_def captureAtSealTime_state keystroke_def)
qed

theorem seal_ceiling_counterexample:
  "Capture 1011000 (keystroke ''02'' 1011000) \<in> set typingBurst \<and>
   lastProcessTime (replay exampleParser newTandemProcessor firstSeal) = 1010000 \<and>
   lastProcessTime beforeLatePoll = 1010000 \<and>
   1182000 - lastActivityTime beforeLatePoll \<ge> 45000 \<and>
   snd (pollTick exampleParser 1182000 beforeLatePoll)
     = Some (sealedBatch exampleParser 1182000 (batchData beforeLatePoll)) \<and>
   (keystroke ''02'' 1011000)\<lparr>receivedAt := 1011000\<rparr> \<notin> set (batchData beforeLatePoll) \<and>
   captureAtSealTime = firstSeal @ [Capture 1010000 (keystroke ''02'' 1010000)] \<and>
   (keystroke ''02'' 1010000)\<lparr>receivedAt := 1010000\<rparr>
     \<in> set (rawCaptureData (replay exampleParser newTandemProcessor captureAtSealTime)) \<and>
   1060000 - lastActivityTime (replay exampleParser newTandemProcessor captureAtSealTime)
     \<ge> 45000 \<and>
   snd (pollTick exampleParser 1060000
          (replay exampleParser newTandemProcessor captureAtSealTime)) = None"
proof -
  have sealed: "lastProcessTime (replay exampleParser newTandemProcessor firstSeal) = 1010000"
    by (simp add: firstSeal_state)
  have typed: "Capture 1011000 (keystroke ''02'' 1011000) \<in> set typingBurst"
    by (simp add: typingBurst_def)
  have late: "1182000 - lastActivityTime beforeLatePoll \<ge> 45000"
    and same: "lastProcessTime beforeLatePoll = 1010000"
    and idle: "\<not> isProcessing beforeLatePoll"
    by (simp_all add: beforeLatePoll_state)
  have some: "batchData beforeLatePoll \<noteq> []"
    using beforeLatePoll_batchData(2) by (auto simp: beforeLatePoll_batchData(1))
  have "pollTick exampleParser 1182000 beforeLatePoll
      = processBatch exampleParser 1182000 beforeLatePoll"
    using idle late batchData_buffered [OF some]
    by (intro poll_processes) (simp_all add: maxWaitTime_def)
  then have batch: "snd (pollTick exampleParser 1182000 beforeLatePoll)
      = Some (sealedBatch exampleParser 1182000 (batchData beforeLatePoll))"
    by (simp add: processBatch_seals [OF some])
  have evicted: "(keystroke ''02'' 1011000)\<lparr>receivedAt := 1011000\<rparr>
      \<notin> set (batchData beforeLatePoll)"
    using beforeLatePoll_batchData(3) by (simp add: beforeLatePoll_batchData(1))
  have second: "(keystroke ''02'' 1010000)\<lparr>receivedAt := 1010000\<rparr>
      \<in> set (rawCaptureData (replay exampleParser newTandemProcessor captureAtSealTime))"
    and idle50: "1060000 - lastActivityTime (replay exampleParser newTandemProcessor
      captureAtSealTime) \<ge> 45000"
    by (simp_all add: captureAtSealTime_state)
  from sealed typed late same batch evicted second idle50 captureAtSealTime_poll
    captureAtSealTime_def
  show ?thesis by blast
qed

end
